theory Spec2Isabelle
  imports Main
begin

section \<open>Data model\<close>

text \<open>
  The repository holds two versions of one script: the current one (the file with
  \<open>categorizeMembers\<close> and \<open>determineQualified\<close>) and the earlier
  \<open>role-manager.js\<close> (with \<open>filterEligibleUsers\<close> and
  \<open>getActiveSpecialRoles\<close>). Definitions of the earlier version carry the suffix
  \<open>_v1\<close>. Identifiers of users, roles and channels are Discord snowflakes, kept as
  strings as in the source.
\<close>

type_synonym snowflake = string

text \<open>
  The role configuration. The current version reads it from the environment, the
  earlier one writes the identifiers into the file.
\<close>

record config =
  HIERARCH_ROLE_ID :: snowflake
  MEMBER_ROLE_ID :: snowflake
  PROTECTED_ROLES_IDS :: "snowflake list"
  SPECIAL_ROLES_IDS :: "snowflake list"
  SUMMARY_CHANNEL_ID :: snowflake

definition TOP_COUNT :: nat where
  "TOP_COUNT = 30"

definition GRACE_PERIOD_WEEKS :: int where
  "GRACE_PERIOD_WEEKS = 2"

definition GRACE_PERIOD_WEEKS_v1 :: int where
  "GRACE_PERIOD_WEEKS_v1 = 4"

definition config_v1 :: config where
  "config_v1 = \<lparr> HIERARCH_ROLE_ID = ''1449883199722229890'',
                 MEMBER_ROLE_ID = ''1338515855709044757'',
                 PROTECTED_ROLES_IDS = [''1247895646929817730''],
                 SPECIAL_ROLES_IDS = [''1265029315532161176'', ''1247902423453007934'',
                                      ''1247902000847523912'', ''1336680493252481037''],
                 SUMMARY_CHANNEL_ID = [] \<rparr>"

text \<open>
  A guild member as the script reads it: \<open>displayName\<close> is
  \<open>member.nickname || member.user.username\<close>, \<open>roleIds\<close> the keys of
  \<open>member.roles.cache\<close>.
\<close>

record guildMember =
  displayName :: string
  roleIds :: "snowflake list"

record rankedEntry =
  rank :: nat
  rk_username :: string
  rk_userId :: snowflake
  rk_mentions :: int

record mentionEntry =
  me_username :: string
  me_userId :: snowflake
  mentions :: int

record removedEntry =
  rm_username :: string
  rm_userId :: snowflake
  reason :: string
  rm_weeksOut :: "int option"

record graceUserEntry =
  gu_username :: string
  gu_userId :: snowflake
  gu_weeksOut :: int
  weeksRemaining :: int

record skippedEntry =
  sk_username :: string
  sk_userId :: snowflake

text \<open>
  One record serves both versions of \<open>logData\<close>: the current version has the field
  \<open>protected\<close> and no \<open>protectedSkipped\<close>, the earlier one has
  \<open>protectedSkipped\<close> and no \<open>protected\<close>; the field a version lacks stays empty.
\<close>

record logData =
  timestamp :: string
  top30 :: "rankedEntry list"
  specialRoles :: "mentionEntry list"
  protected :: "mentionEntry list"
  rolesAdded :: "mentionEntry list"
  rolesRemoved :: "removedEntry list"
  graceUsers :: "graceUserEntry list"
  protectedSkipped :: "skippedEntry list"

text \<open>
  The guild, with what its asynchronous calls do:
  \<^item> \<open>members_fetch\<close> is \<open>guild.members.fetch\<close>, \<open>None\<close> when the promise rejects;
  \<^item> \<open>roles_fetch\<close> is \<open>guild.roles.fetch\<close> and gives the keys of
    \<open>role.members\<close>, a collection keyed by member identifier, \<open>None\<close> when the role
    is not found;
  \<^item> \<open>roles_add\<close> and \<open>roles_remove\<close> tell, for a member, whether
    \<open>member.roles.add(HIERARCH_ROLE_ID)\<close> and \<open>member.roles.remove(HIERARCH_ROLE_ID)\<close>
    resolve (\<open>True\<close>) or reject (\<open>False\<close>);
  \<^item> \<open>channels_fetch\<close> tells whether the channel is found and is text based;
  \<^item> \<open>summary_send\<close> tells whether building the embed for a log and sending it
    succeeds (the description of an embed is limited in length, and \<open>channel.send\<close>
    can reject).
\<close>

record guild =
  members_fetch :: "snowflake \<Rightarrow> guildMember option"
  roles_fetch :: "snowflake \<Rightarrow> snowflake list option"
  roles_add :: "snowflake \<Rightarrow> bool"
  roles_remove :: "snowflake \<Rightarrow> bool"
  channels_fetch :: "snowflake \<Rightarrow> bool"
  summary_send :: "logData \<Rightarrow> bool"

record userData =
  userId :: snowflake
  username :: string
  mentionCount :: int
  member :: guildMember

record qualification =
  top30Regular :: "userData list"
  qualifiedSpecial :: "userData list"
  qualifiedProtected :: "userData list"
  threshold :: int

section \<open>Tier classification and qualification\<close>

definition hasRoleIn :: "snowflake list \<Rightarrow> guildMember \<Rightarrow> bool" where
  "hasRoleIn ids m = list_ex (\<lambda>r. r \<in> set ids) (roleIds m)"

text \<open>
  The loop of \<open>categorizeMembers\<close> over the entries of the mention map, in insertion
  order. A member that cannot be fetched or lacks the member role is skipped.
\<close>

fun categorizeLoop ::
  "config \<Rightarrow> guild \<Rightarrow> (snowflake \<times> int) list
     \<Rightarrow> userData list \<times> userData list \<times> userData list
     \<Rightarrow> userData list \<times> userData list \<times> userData list" where
  "categorizeLoop cfg g [] acc = acc"
| "categorizeLoop cfg g ((uid, count) # rest) (regularMembers, specialMembers, protectedMembers) =
     (case members_fetch g uid of
        None \<Rightarrow> categorizeLoop cfg g rest (regularMembers, specialMembers, protectedMembers)
      | Some m \<Rightarrow>
          if MEMBER_ROLE_ID cfg \<notin> set (roleIds m)
          then categorizeLoop cfg g rest (regularMembers, specialMembers, protectedMembers)
          else
            let userData = \<lparr> userId = uid, username = displayName m,
                             mentionCount = count, member = m \<rparr>
            in if hasRoleIn (PROTECTED_ROLES_IDS cfg) m
               then categorizeLoop cfg g rest
                      (regularMembers, specialMembers, protectedMembers @ [userData])
               else if hasRoleIn (SPECIAL_ROLES_IDS cfg) m
               then categorizeLoop cfg g rest
                      (regularMembers, specialMembers @ [userData], protectedMembers)
               else categorizeLoop cfg g rest
                      (regularMembers @ [userData], specialMembers, protectedMembers))"

text \<open>
  \<open>Array.prototype.sort\<close> with the comparator \<open>b.mentionCount - a.mentionCount\<close> is a
  stable sort by descending mention count.
\<close>

definition sortByMentions :: "userData list \<Rightarrow> userData list" where
  "sortByMentions us = sort_key (\<lambda>u. - mentionCount u) us"

definition categorizeMembers ::
  "config \<Rightarrow> guild \<Rightarrow> (snowflake \<times> int) list
     \<Rightarrow> userData list \<times> userData list \<times> userData list" where
  "categorizeMembers cfg g mentionMap =
     (case categorizeLoop cfg g mentionMap ([], [], []) of
        (regularMembers, specialMembers, protectedMembers) \<Rightarrow>
          (sortByMentions regularMembers, sortByMentions specialMembers, protectedMembers))"

definition determineQualified ::
  "userData list \<Rightarrow> userData list \<Rightarrow> userData list \<Rightarrow> qualification" where
  "determineQualified regularMembers specialMembers protectedMembers =
     (let top30 = take TOP_COUNT regularMembers;
          thr = (if length top30 > 0 then mentionCount (top30 ! (length top30 - 1)) else 0)
      in \<lparr> top30Regular = top30,
           qualifiedSpecial = filter (\<lambda>m. mentionCount m > thr) specialMembers,
           qualifiedProtected = protectedMembers,
           threshold = thr \<rparr>)"

section \<open>Grace tracking, the decision log and the role mutations\<close>

record graceEntry =
  g_username :: string
  weeksOut :: int
  firstWeekOut :: string

type_synonym graceStore = "snowflake \<Rightarrow> graceEntry option"

text \<open>
  The calls \<open>member.roles.add\<close> and \<open>member.roles.remove\<close> that resolved, in the
  order made: the role mutations of a run.
\<close>

datatype roleOp = RoleAdd snowflake | RoleRemove snowflake

text \<open>The mutable state of one call of \<open>manageRoles\<close>.\<close>

record runState =
  graceTracking :: graceStore
  log :: logData
  roleOps :: "roleOp list"

definition toMentionEntry :: "userData \<Rightarrow> mentionEntry" where
  "toMentionEntry u = \<lparr> me_username = username u, me_userId = userId u, mentions = mentionCount u \<rparr>"

definition toRankedEntries :: "userData list \<Rightarrow> rankedEntry list" where
  "toRankedEntries us =
     map (\<lambda>(i, u). \<lparr> rank = i + 1, rk_username = username u, rk_userId = userId u,
                      rk_mentions = mentionCount u \<rparr>) (zip [0 ..< length us] us)"

definition loadGrace :: "graceStore option \<Rightarrow> graceStore" where
  "loadGrace file = (case file of None \<Rightarrow> Map.empty | Some g \<Rightarrow> g)"

definition pushAdded :: "userData \<Rightarrow> logData \<Rightarrow> logData" where
  "pushAdded u l = l\<lparr> rolesAdded := rolesAdded l @ [toMentionEntry u] \<rparr>"

definition pushRemoved :: "removedEntry \<Rightarrow> logData \<Rightarrow> logData" where
  "pushRemoved e l = l\<lparr> rolesRemoved := rolesRemoved l @ [e] \<rparr>"

definition pushGrace :: "graceUserEntry \<Rightarrow> logData \<Rightarrow> logData" where
  "pushGrace e l = l\<lparr> graceUsers := graceUsers l @ [e] \<rparr>"

definition pushSkipped :: "skippedEntry \<Rightarrow> logData \<Rightarrow> logData" where
  "pushSkipped e l = l\<lparr> protectedSkipped := protectedSkipped l @ [e] \<rparr>"

section \<open>manageRoles, current version\<close>

text \<open>
  A step that awaits a call outside a \<open>try\<close>: \<open>Resolved\<close> with the state reached, or
  \<open>Rejected\<close> with the state at the moment the call rejected and the exception left
  the function.
\<close>

datatype 'a attempt = Rejected 'a | Resolved 'a

definition stateOf :: "'a attempt \<Rightarrow> 'a" where
  "stateOf a = (case a of Rejected s \<Rightarrow> s | Resolved s \<Rightarrow> s)"

text \<open>
  The loop over \<open>allQualified\<close>: a grace record of a qualified user is deleted, and the
  role is added to a qualified user whose role cache lacks it. The loop has no
  \<open>try\<close>: when \<open>roles.add\<close> rejects, the exception leaves \<open>manageRoles\<close>.
\<close>

definition addOne :: "config \<Rightarrow> guild \<Rightarrow> userData \<Rightarrow> runState \<Rightarrow> runState attempt" where
  "addOne cfg g user st =
     (let st1 = (if graceTracking st (userId user) \<noteq> None
                 then st\<lparr> graceTracking := (graceTracking st)(userId user := None) \<rparr>
                 else st)
      in if HIERARCH_ROLE_ID cfg \<notin> set (roleIds (member user))
         then if roles_add g (userId user)
              then Resolved (st1\<lparr> roleOps := roleOps st1 @ [RoleAdd (userId user)],
                                 log := pushAdded user (log st1) \<rparr>)
              else Rejected st1
         else Resolved st1)"

fun addQualified :: "config \<Rightarrow> guild \<Rightarrow> userData list \<Rightarrow> runState \<Rightarrow> runState attempt" where
  "addQualified cfg g [] st = Resolved st"
| "addQualified cfg g (user # rest) st =
     (case addOne cfg g user st of
        Rejected s \<Rightarrow> Rejected s
      | Resolved s \<Rightarrow> addQualified cfg g rest s)"

text \<open>
  The body of the loop over \<open>hierarchRole.members\<close>. The grace period \<open>G\<close> is the
  constant \<open>GRACE_PERIOD_WEEKS\<close> of the source, taken as a parameter here and fixed
  in \<open>manageRoles\<close> below. The body is inside a \<open>try\<close> whose \<open>catch\<close> logs and
  goes on with the next member: a member whose fetch rejects is skipped, and when
  \<open>roles.remove\<close> rejects nothing is pushed and nothing is deleted. In the expiry
  branch \<open>weeksOut++\<close> has already changed the record in place by then, so the record
  stays in the store with the incremented value.
\<close>

definition handleMember ::
  "int \<Rightarrow> config \<Rightarrow> string \<Rightarrow> guild \<Rightarrow> snowflake set \<Rightarrow> snowflake \<Rightarrow> runState \<Rightarrow> runState" where
  "handleMember G cfg ts g qualifiedUserIds memberId st =
     (if memberId \<in> qualifiedUserIds then st
      else case members_fetch g memberId of
        None \<Rightarrow> st
      | Some m \<Rightarrow>
          let uname = displayName m in
          if hasRoleIn (PROTECTED_ROLES_IDS cfg) m then st
          else if G > 0 then
            (case graceTracking st memberId of
               None \<Rightarrow>
                 st\<lparr> graceTracking := (graceTracking st)(memberId \<mapsto>
                        \<lparr> g_username = uname, weeksOut = 1, firstWeekOut = ts \<rparr>),
                     log := pushGrace \<lparr> gu_username = uname, gu_userId = memberId,
                                        gu_weeksOut = 1, weeksRemaining = G - 1 \<rparr> (log st) \<rparr>
             | Some e \<Rightarrow>
                 let w = weeksOut e + 1;
                     st1 = st\<lparr> graceTracking :=
                                 (graceTracking st)(memberId \<mapsto> e\<lparr> weeksOut := w \<rparr>) \<rparr>
                 in if w > G
                    then if roles_remove g memberId
                         then st1\<lparr> graceTracking := (graceTracking st1)(memberId := None),
                                   log := pushRemoved
                                            \<lparr> rm_username = uname, rm_userId = memberId,
                                              reason = ''Grace period expired'',
                                              rm_weeksOut = Some w \<rparr> (log st1),
                                   roleOps := roleOps st1 @ [RoleRemove memberId] \<rparr>
                         else st1
                    else st1\<lparr> log := pushGrace
                                       \<lparr> gu_username = uname, gu_userId = memberId,
                                         gu_weeksOut = w, weeksRemaining = G - w \<rparr> (log st1) \<rparr>)
          else if roles_remove g memberId
               then st\<lparr> log := pushRemoved \<lparr> rm_username = uname, rm_userId = memberId,
                                             reason = ''Not qualified'', rm_weeksOut = None \<rparr>
                                           (log st),
                        roleOps := roleOps st @ [RoleRemove memberId] \<rparr>
               else st)"

fun handleHolders ::
  "int \<Rightarrow> config \<Rightarrow> string \<Rightarrow> guild \<Rightarrow> snowflake set \<Rightarrow> snowflake list \<Rightarrow> runState \<Rightarrow> runState" where
  "handleHolders G cfg ts g qualifiedUserIds [] st = st"
| "handleHolders G cfg ts g qualifiedUserIds (memberId # rest) st =
     handleHolders G cfg ts g qualifiedUserIds rest
       (handleMember G cfg ts g qualifiedUserIds memberId st)"

text \<open>
  What one call leaves behind: whether it threw, the value returned (\<open>None\<close> for
  \<open>undefined\<close>, and when it threw), the detailed log written to the logs directory
  (\<open>None\<close> when none is written), the content of the grace file (\<open>None\<close> while the
  file does not exist) and the role mutations made.
\<close>

record runResult =
  threw :: bool
  returned :: "logData option"
  logFile :: "logData option"
  graceFile :: "graceStore option"
  mutations :: "roleOp list"

definition allQualified :: "qualification \<Rightarrow> userData list" where
  "allQualified q = top30Regular q @ qualifiedSpecial q @ qualifiedProtected q"

definition qualifiedIds :: "qualification \<Rightarrow> snowflake set" where
  "qualifiedIds q = userId ` set (top30Regular q) \<union> userId ` set (qualifiedSpecial q)
                      \<union> userId ` set (qualifiedProtected q)"

definition initialLog :: "string \<Rightarrow> qualification \<Rightarrow> logData" where
  "initialLog ts q =
     \<lparr> timestamp = ts,
       top30 = toRankedEntries (top30Regular q),
       specialRoles = map toMentionEntry (qualifiedSpecial q),
       protected = map toMentionEntry (qualifiedProtected q),
       rolesAdded = [], rolesRemoved = [], graceUsers = [], protectedSkipped = [] \<rparr>"

definition manageRolesG ::
  "int \<Rightarrow> config \<Rightarrow> string \<Rightarrow> guild \<Rightarrow> qualification \<Rightarrow> graceStore option \<Rightarrow> runResult" where
  "manageRolesG G cfg ts g q file =
     (let st0 = \<lparr> graceTracking = loadGrace file, log = initialLog ts q, roleOps = [] \<rparr>
      in case roles_fetch g (HIERARCH_ROLE_ID cfg) of
           None \<Rightarrow> \<lparr> threw = False, returned = None, logFile = None, graceFile = file,
                     mutations = [] \<rparr>
         | Some holders \<Rightarrow>
             (case addQualified cfg g (allQualified q) st0 of
                Rejected s \<Rightarrow>
                  \<lparr> threw = True, returned = None, logFile = None, graceFile = file,
                    mutations = roleOps s \<rparr>
              | Resolved st1 \<Rightarrow>
                  let st2 = handleHolders G cfg ts g (qualifiedIds q) holders st1
                  in \<lparr> threw = False, returned = Some (log st2), logFile = Some (log st2),
                       graceFile = Some (graceTracking st2), mutations = roleOps st2 \<rparr>))"

definition manageRoles ::
  "config \<Rightarrow> string \<Rightarrow> guild \<Rightarrow> qualification \<Rightarrow> graceStore option \<Rightarrow> runResult" where
  "manageRoles = manageRolesG GRACE_PERIOD_WEEKS"

text \<open>
  Consecutive runs of the script: each run reads the grace file the run before it left.
\<close>

fun consecutiveRuns ::
  "int \<Rightarrow> config \<Rightarrow> (string \<times> guild \<times> qualification) list \<Rightarrow> graceStore option
     \<Rightarrow> runResult list" where
  "consecutiveRuns G cfg [] file = []"
| "consecutiveRuns G cfg ((ts, g, q) # rest) file =
     (let r = manageRolesG G cfg ts g q file
      in r # consecutiveRuns G cfg rest (graceFile r))"

section \<open>The ready handler, current version\<close>

text \<open>
  \<open>sendSummaryToDiscord\<close> catches its own errors: it sends nothing when the summary
  channel is missing, nothing when \<open>logData\<close> is \<open>undefined\<close> (reading
  \<open>logData.top30\<close> throws inside its \<open>try\<close>), and nothing when building or
  sending the embed throws. The result tells whether the embed was sent.
\<close>

definition sendSummaryToDiscord :: "config \<Rightarrow> guild \<Rightarrow> logData option \<Rightarrow> bool" where
  "sendSummaryToDiscord cfg g logData =
     (if \<not> channels_fetch g (SUMMARY_CHANNEL_ID cfg) then False
      else case logData of None \<Rightarrow> False | Some l \<Rightarrow> summary_send g l)"

text \<open>
  The handler ends the process with \<open>process.exit(0)\<close> after printing
  "Role update completed successfully!", or with \<open>process.exit(1)\<close> from its
  \<open>catch\<close>, which every exception thrown inside its \<open>try\<close> reaches. The guild is
  \<open>None\<close> when \<open>client.guilds.fetch\<close> rejects, the mention map is \<open>None\<close> when
  \<open>scanChannelsForMentions\<close> throws, and \<open>manageRoles\<close> throws when a
  \<open>roles.add\<close> rejects. The other exceptions the handler can meet (a grace file that
  does not parse, a file write that fails, a rejected \<open>guild.roles.fetch\<close>) end it
  the same way and are not inputs of the model.
\<close>

record outcome =
  exitCode :: int
  successReported :: bool
  summarySent :: bool
  run :: "runResult option"

definition ready ::
  "config \<Rightarrow> string \<Rightarrow> guild option \<Rightarrow> (snowflake \<times> int) list option \<Rightarrow> graceStore option
     \<Rightarrow> outcome" where
  "ready cfg ts guildFetched scanned file =
     (case guildFetched of
        None \<Rightarrow> \<lparr> exitCode = 1, successReported = False, summarySent = False, run = None \<rparr>
      | Some g \<Rightarrow>
          (case scanned of
             None \<Rightarrow> \<lparr> exitCode = 1, successReported = False, summarySent = False, run = None \<rparr>
           | Some mentionCounts \<Rightarrow>
               (case categorizeMembers cfg g mentionCounts of
                  (regularMembers, specialMembers, protectedMembers) \<Rightarrow>
                    let qualified =
                          determineQualified regularMembers specialMembers protectedMembers;
                        r = manageRoles cfg ts g qualified file
                    in if threw r
                       then \<lparr> exitCode = 1, successReported = False, summarySent = False,
                              run = Some r \<rparr>
                       else \<lparr> exitCode = 0, successReported = True,
                              summarySent = sendSummaryToDiscord cfg g (returned r),
                              run = Some r \<rparr>)))"

section \<open>manageRoles, earlier version (role-manager.js)\<close>

text \<open>
  The earlier version adds the role to the top regular members only, clears the grace
  record of every active special member, and records the protected members it skips.
  Its calls of \<open>roles.add\<close> and \<open>roles.remove\<close> are commented out, so it makes no
  role mutation, none of its steps can reject, and it returns nothing.
\<close>

definition addOne_v1 :: "config \<Rightarrow> userData \<Rightarrow> runState \<Rightarrow> runState" where
  "addOne_v1 cfg user st =
     (let st1 = (if graceTracking st (userId user) \<noteq> None
                 then st\<lparr> graceTracking := (graceTracking st)(userId user := None) \<rparr>
                 else st)
      in if HIERARCH_ROLE_ID cfg \<notin> set (roleIds (member user))
         then st1\<lparr> log := pushAdded user (log st1) \<rparr>
         else st1)"

fun addTop30_v1 :: "config \<Rightarrow> userData list \<Rightarrow> runState \<Rightarrow> runState" where
  "addTop30_v1 cfg [] st = st"
| "addTop30_v1 cfg (user # rest) st = addTop30_v1 cfg rest (addOne_v1 cfg user st)"

fun clearGrace_v1 :: "userData list \<Rightarrow> runState \<Rightarrow> runState" where
  "clearGrace_v1 [] st = st"
| "clearGrace_v1 (user # rest) st =
     clearGrace_v1 rest
       (if graceTracking st (userId user) \<noteq> None
        then st\<lparr> graceTracking := (graceTracking st)(userId user := None) \<rparr>
        else st)"

definition handleMember_v1 ::
  "int \<Rightarrow> config \<Rightarrow> string \<Rightarrow> guild \<Rightarrow> snowflake set \<Rightarrow> snowflake \<Rightarrow> runState \<Rightarrow> runState" where
  "handleMember_v1 G cfg ts g activeUsers memberId st =
     (if memberId \<in> activeUsers then st
      else case members_fetch g memberId of
        None \<Rightarrow> st
      | Some m \<Rightarrow>
          let uname = displayName m in
          if hasRoleIn (PROTECTED_ROLES_IDS cfg) m
          then st\<lparr> log := pushSkipped \<lparr> sk_username = uname, sk_userId = memberId \<rparr> (log st) \<rparr>
          else if G > 0 then
            (case graceTracking st memberId of
               None \<Rightarrow>
                 st\<lparr> graceTracking := (graceTracking st)(memberId \<mapsto>
                        \<lparr> g_username = uname, weeksOut = 1, firstWeekOut = ts \<rparr>),
                     log := pushGrace \<lparr> gu_username = uname, gu_userId = memberId,
                                        gu_weeksOut = 1, weeksRemaining = G - 1 \<rparr> (log st) \<rparr>
             | Some e \<Rightarrow>
                 let w = weeksOut e + 1 in
                 if w > G
                 then st\<lparr> graceTracking := (graceTracking st)(memberId := None),
                          log := pushRemoved \<lparr> rm_username = uname, rm_userId = memberId,
                                               reason = ''Grace period expired'',
                                               rm_weeksOut = Some w \<rparr> (log st) \<rparr>
                 else st\<lparr> graceTracking := (graceTracking st)(memberId \<mapsto> e\<lparr> weeksOut := w \<rparr>),
                          log := pushGrace \<lparr> gu_username = uname, gu_userId = memberId,
                                             gu_weeksOut = w, weeksRemaining = G - w \<rparr> (log st) \<rparr>)
          else st\<lparr> log := pushRemoved \<lparr> rm_username = uname, rm_userId = memberId,
                                        reason = ''Not in top 30'', rm_weeksOut = None \<rparr> (log st) \<rparr>)"

fun handleHolders_v1 ::
  "int \<Rightarrow> config \<Rightarrow> string \<Rightarrow> guild \<Rightarrow> snowflake set \<Rightarrow> snowflake list \<Rightarrow> runState \<Rightarrow> runState" where
  "handleHolders_v1 G cfg ts g activeUsers [] st = st"
| "handleHolders_v1 G cfg ts g activeUsers (memberId # rest) st =
     handleHolders_v1 G cfg ts g activeUsers rest
       (handleMember_v1 G cfg ts g activeUsers memberId st)"

definition activeIds_v1 :: "userData list \<Rightarrow> userData list \<Rightarrow> snowflake set" where
  "activeIds_v1 top30Reg activeSpecialRoles =
     userId ` set top30Reg \<union> userId ` set activeSpecialRoles"

definition initialLog_v1 :: "string \<Rightarrow> userData list \<Rightarrow> userData list \<Rightarrow> logData" where
  "initialLog_v1 ts top30Reg activeSpecialRoles =
     \<lparr> timestamp = ts,
       top30 = toRankedEntries top30Reg,
       specialRoles = map toMentionEntry activeSpecialRoles,
       protected = [],
       rolesAdded = [], rolesRemoved = [], graceUsers = [], protectedSkipped = [] \<rparr>"

definition manageRolesG_v1 ::
  "int \<Rightarrow> config \<Rightarrow> string \<Rightarrow> guild \<Rightarrow> userData list \<Rightarrow> userData list \<Rightarrow> graceStore option
     \<Rightarrow> runResult" where
  "manageRolesG_v1 G cfg ts g top30Reg activeSpecialRoles file =
     (let st0 = \<lparr> graceTracking = loadGrace file,
                  log = initialLog_v1 ts top30Reg activeSpecialRoles, roleOps = [] \<rparr>
      in case roles_fetch g (HIERARCH_ROLE_ID cfg) of
           None \<Rightarrow> \<lparr> threw = False, returned = None, logFile = None, graceFile = file,
                     mutations = [] \<rparr>
         | Some holders \<Rightarrow>
             let st1 = addTop30_v1 cfg top30Reg st0;
                 st2 = clearGrace_v1 activeSpecialRoles st1;
                 st3 = handleHolders_v1 G cfg ts g (activeIds_v1 top30Reg activeSpecialRoles)
                         holders st2
             in \<lparr> threw = False, returned = None, logFile = Some (log st3),
                  graceFile = Some (graceTracking st3), mutations = roleOps st3 \<rparr>)"

definition manageRoles_v1 ::
  "string \<Rightarrow> guild \<Rightarrow> userData list \<Rightarrow> userData list \<Rightarrow> graceStore option \<Rightarrow> runResult" where
  "manageRoles_v1 = manageRolesG_v1 GRACE_PERIOD_WEEKS_v1 config_v1"

fun consecutiveRuns_v1 ::
  "int \<Rightarrow> config \<Rightarrow> (string \<times> guild \<times> userData list \<times> userData list) list \<Rightarrow> graceStore option
     \<Rightarrow> runResult list" where
  "consecutiveRuns_v1 G cfg [] file = []"
| "consecutiveRuns_v1 G cfg ((ts, g, top30Reg, activeSpecialRoles) # rest) file =
     (let r = manageRolesG_v1 G cfg ts g top30Reg activeSpecialRoles file
      in r # consecutiveRuns_v1 G cfg rest (graceFile r))"

section \<open>Observations on a run\<close>

text \<open>
  The user identifiers of the four decision lists of a log.
\<close>

definition addedIds :: "logData \<Rightarrow> snowflake list" where
  "addedIds l = map me_userId (rolesAdded l)"
definition removedIds :: "logData \<Rightarrow> snowflake list" where
  "removedIds l = map rm_userId (rolesRemoved l)"
definition graceIds :: "logData \<Rightarrow> snowflake list" where
  "graceIds l = map gu_userId (graceUsers l)"
definition skippedIds :: "logData \<Rightarrow> snowflake list" where
  "skippedIds l = map sk_userId (protectedSkipped l)"

text \<open>
  No \<open>roles.add\<close> of the loop over the given users rejects: every user either has
  the privileged role in the role cache, so that no call is made, or the call resolves.
\<close>

definition grantsResolve :: "config \<Rightarrow> guild \<Rightarrow> userData list \<Rightarrow> bool" where
  "grantsResolve cfg g us =
     list_all (\<lambda>u. HIERARCH_ROLE_ID cfg \<in> set (roleIds (member u)) \<or> roles_add g (userId u)) us"

text \<open>
  Invariant of the loop over the role holders: the identifiers in \<open>rolesRemoved\<close>,
  \<open>graceUsers\<close> and \<open>protectedSkipped\<close> are among the holders \<open>D\<close> handled so
  far, and no identifier is in two of these lists.
\<close>

definition decided :: "snowflake set \<Rightarrow> logData \<Rightarrow> bool" where
  "decided D l \<longleftrightarrow>
     set (removedIds l) \<subseteq> D \<and> set (graceIds l) \<subseteq> D \<and> set (skippedIds l) \<subseteq> D \<and>
     set (removedIds l) \<inter> set (graceIds l) = {} \<and>
     set (removedIds l) \<inter> set (skippedIds l) = {} \<and>
     set (graceIds l) \<inter> set (skippedIds l) = {}"

text \<open>
  None of the three lists filled by the loop over the role holders names a user of the
  set \<open>Q\<close> (the qualified users; the active users in the earlier version).
\<close>

definition offQualified :: "snowflake set \<Rightarrow> logData \<Rightarrow> bool" where
  "offQualified Q l \<longleftrightarrow>
     set (removedIds l) \<inter> Q = {} \<and> set (graceIds l) \<inter> Q = {} \<and> set (skippedIds l) \<inter> Q = {}"

text \<open>
  No user identifier occurs in two of the lists \<open>rolesAdded\<close>, \<open>rolesRemoved\<close>,
  \<open>graceUsers\<close>, \<open>protectedSkipped\<close>.
\<close>

definition listsDisjoint :: "logData \<Rightarrow> bool" where
  "listsDisjoint l \<longleftrightarrow>
     set (addedIds l) \<inter> set (removedIds l) = {} \<and>
     set (addedIds l) \<inter> set (graceIds l) = {} \<and>
     set (addedIds l) \<inter> set (skippedIds l) = {} \<and>
     set (removedIds l) \<inter> set (graceIds l) = {} \<and>
     set (removedIds l) \<inter> set (skippedIds l) = {} \<and>
     set (graceIds l) \<inter> set (skippedIds l) = {}"

text \<open>
  Every record of a grace store has \<open>weeksOut\<close> between 1 and \<open>G\<close>.
\<close>

definition graceInv :: "int \<Rightarrow> graceStore \<Rightarrow> bool" where
  "graceInv G gt \<longleftrightarrow> (\<forall>u e. gt u = Some e \<longrightarrow> 1 \<le> weeksOut e \<and> weeksOut e \<le> G)"

text \<open>
  The entries of one user in \<open>graceUsers\<close> and in \<open>rolesRemoved\<close>, and what a run
  decided for one user: these entries of the log written, with the user's record in the
  grace file the run leaves.
\<close>

definition graceUsersOf :: "snowflake \<Rightarrow> logData \<Rightarrow> graceUserEntry list" where
  "graceUsersOf u l = filter (\<lambda>e. gu_userId e = u) (graceUsers l)"

definition removedOf :: "snowflake \<Rightarrow> logData \<Rightarrow> removedEntry list" where
  "removedOf u l = filter (\<lambda>e. rm_userId e = u) (rolesRemoved l)"

definition userView ::
  "snowflake \<Rightarrow> runState \<Rightarrow> graceUserEntry list \<times> removedEntry list \<times> graceEntry option" where
  "userView u st = (graceUsersOf u (log st), removedOf u (log st), graceTracking st u)"

definition decisionsFor ::
  "snowflake \<Rightarrow> runResult \<Rightarrow> graceUserEntry list \<times> removedEntry list \<times> graceEntry option" where
  "decisionsFor u r =
     (case logFile r of
        None \<Rightarrow> ([], [], loadGrace (graceFile r) u)
      | Some l \<Rightarrow> (graceUsersOf u l, removedOf u l, loadGrace (graceFile r) u))"

text \<open>
  A user that the loop over the role holders tracks: the role is found, its member
  collection (keyed by identifier, hence without repetition) holds the user, the user is
  not in the set \<open>Q\<close>, the member can be fetched and has no protected role.
\<close>

definition disqualifiedHolder ::
  "config \<Rightarrow> guild \<Rightarrow> snowflake set \<Rightarrow> snowflake \<Rightarrow> guildMember \<Rightarrow> bool" where
  "disqualifiedHolder cfg g Q u m \<longleftrightarrow>
     (case roles_fetch g (HIERARCH_ROLE_ID cfg) of
        None \<Rightarrow> False
      | Some holders \<Rightarrow> distinct holders \<and> u \<in> set holders)
     \<and> u \<notin> Q \<and> members_fetch g u = Some m \<and> \<not> hasRoleIn (PROTECTED_ROLES_IDS cfg) m"

text \<open>
  The grace-period state machine as the specification words it (section 4.3), for one
  tracked user and one run, to compare the loop with: no record starts grace at
  \<open>weeksOut = 1\<close>; a record is advanced by one, and is replaced by a removal with
  reason "Grace period expired" once it exceeds \<open>G\<close>; without a grace period the
  user is removed at once with reason "Not qualified" and no record is involved. The
  result is the user's entries in \<open>graceUsers\<close> and \<open>rolesRemoved\<close> and the
  user's new record.
\<close>

definition graceTransition_spec ::
  "int \<Rightarrow> string \<Rightarrow> snowflake \<Rightarrow> guildMember \<Rightarrow> graceEntry option
     \<Rightarrow> graceUserEntry list \<times> removedEntry list \<times> graceEntry option" where
  "graceTransition_spec G ts u m old =
     (if G > 0 then
        (case old of
           None \<Rightarrow>
             ([\<lparr> gu_username = displayName m, gu_userId = u, gu_weeksOut = 1,
                  weeksRemaining = G - 1 \<rparr>], [],
              Some \<lparr> g_username = displayName m, weeksOut = 1, firstWeekOut = ts \<rparr>)
         | Some e \<Rightarrow>
             if weeksOut e + 1 > G
             then ([], [\<lparr> rm_username = displayName m, rm_userId = u,
                          reason = ''Grace period expired'',
                          rm_weeksOut = Some (weeksOut e + 1) \<rparr>], None)
             else ([\<lparr> gu_username = displayName m, gu_userId = u, gu_weeksOut = weeksOut e + 1,
                       weeksRemaining = G - (weeksOut e + 1) \<rparr>], [],
                   Some (e\<lparr> weeksOut := weeksOut e + 1 \<rparr>)))
      else ([], [\<lparr> rm_username = displayName m, rm_userId = u, reason = ''Not qualified'',
                   rm_weeksOut = None \<rparr>], old))"

text \<open>
  The member can be fetched and has one of the protected roles.
\<close>

definition protectedMember :: "config \<Rightarrow> guild \<Rightarrow> snowflake \<Rightarrow> bool" where
  "protectedMember cfg g u =
     (case members_fetch g u of None \<Rightarrow> False | Some m \<Rightarrow> hasRoleIn (PROTECTED_ROLES_IDS cfg) m)"

text \<open>
  A run \<open>r\<close>, started from some store after \<open>gf\<close>, neither removed the user nor
  tracked it for grace: the user is in neither \<open>rolesRemoved\<close> nor \<open>graceUsers\<close>,
  no \<open>roles.remove\<close> was called for it, and its entry of the grace file is absent or
  still the one of \<open>gf\<close>.
\<close>

definition untouched :: "snowflake \<Rightarrow> graceStore option \<Rightarrow> runResult \<Rightarrow> bool" where
  "untouched u gf r \<longleftrightarrow>
     (case logFile r of None \<Rightarrow> True
      | Some l \<Rightarrow> u \<notin> set (removedIds l) \<and> u \<notin> set (graceIds l))
     \<and> RoleRemove u \<notin> set (mutations r)
     \<and> (loadGrace (graceFile r) u = None \<or> loadGrace (graceFile r) u = loadGrace gf u)"

text \<open>
  What three consecutive runs decide for a user who holds the role, does not qualify and
  starts without a grace record, with a grace period of two: grace started, grace
  continued, role removed and record deleted. \<open>m1\<close>, \<open>m2\<close>, \<open>m3\<close> are the member
  as fetched in each run, \<open>ts1\<close> the timestamp of the first run.
\<close>

definition expiryTrace ::
  "snowflake \<Rightarrow> guildMember \<Rightarrow> guildMember \<Rightarrow> guildMember \<Rightarrow> string
     \<Rightarrow> (graceUserEntry list \<times> removedEntry list \<times> graceEntry option) list" where
  "expiryTrace u m1 m2 m3 ts1 =
     [([\<lparr> gu_username = displayName m1, gu_userId = u, gu_weeksOut = 1, weeksRemaining = 1 \<rparr>],
       [],
       Some \<lparr> g_username = displayName m1, weeksOut = 1, firstWeekOut = ts1 \<rparr>),
      ([\<lparr> gu_username = displayName m2, gu_userId = u, gu_weeksOut = 2, weeksRemaining = 0 \<rparr>],
       [],
       Some \<lparr> g_username = displayName m1, weeksOut = 2, firstWeekOut = ts1 \<rparr>),
      ([],
       [\<lparr> rm_username = displayName m3, rm_userId = u, reason = ''Grace period expired'',
          rm_weeksOut = Some 3 \<rparr>],
       None)]"

section \<open>Sample data\<close>

text \<open>
  A small guild used to run the definitions on concrete inputs: two regular members,
  two special members, a protected role holder without mentions and a regular role
  holder without mentions.
\<close>

definition sampleConfig :: config where
  "sampleConfig = \<lparr> HIERARCH_ROLE_ID = ''H'', MEMBER_ROLE_ID = ''M'',
                     PROTECTED_ROLES_IDS = [''P''], SPECIAL_ROLES_IDS = [''S''],
                     SUMMARY_CHANNEL_ID = ''C'' \<rparr>"

definition annM :: guildMember where "annM = \<lparr> displayName = ''Ann'', roleIds = [''M''] \<rparr>"
definition bobM :: guildMember where "bobM = \<lparr> displayName = ''Bob'', roleIds = [''M'', ''H''] \<rparr>"
definition samM :: guildMember where "samM = \<lparr> displayName = ''Sam'', roleIds = [''M'', ''S''] \<rparr>"
definition sueM :: guildMember where "sueM = \<lparr> displayName = ''Sue'', roleIds = [''M'', ''S''] \<rparr>"
definition patM :: guildMember where "patM = \<lparr> displayName = ''Pat'', roleIds = [''M'', ''P'', ''H''] \<rparr>"
definition danM :: guildMember where "danM = \<lparr> displayName = ''Dan'', roleIds = [''M'', ''H''] \<rparr>"

definition ann :: userData where
  "ann = \<lparr> userId = ''1'', username = ''Ann'', mentionCount = 50, member = annM \<rparr>"
definition bob :: userData where
  "bob = \<lparr> userId = ''2'', username = ''Bob'', mentionCount = 40, member = bobM \<rparr>"
definition sam :: userData where
  "sam = \<lparr> userId = ''3'', username = ''Sam'', mentionCount = 41, member = samM \<rparr>"
definition sue :: userData where
  "sue = \<lparr> userId = ''4'', username = ''Sue'', mentionCount = 40, member = sueM \<rparr>"
definition sueOnce :: userData where
  "sueOnce = \<lparr> userId = ''4'', username = ''Sue'', mentionCount = 1, member = sueM \<rparr>"

definition sampleGuild :: guild where
  "sampleGuild =
     \<lparr> members_fetch = map_of [(''1'', annM), (''2'', bobM), (''3'', samM), (''4'', sueM),
                                (''5'', patM), (''6'', danM)],
       roles_fetch = map_of [(''H'', [''2'', ''5'', ''6''])],
       roles_add = (\<lambda>u. True),
       roles_remove = (\<lambda>u. True),
       channels_fetch = (\<lambda>c. c = ''C''),
       summary_send = (\<lambda>l. True) \<rparr>"

definition guildWithoutRole :: guild where
  "guildWithoutRole = sampleGuild\<lparr> roles_fetch := (\<lambda>r. None) \<rparr>"

definition guildRemoveRejects :: guild where
  "guildRemoveRejects = sampleGuild\<lparr> roles_remove := (\<lambda>u. False) \<rparr>"

definition guildAddRejects :: guild where
  "guildAddRejects = sampleGuild\<lparr> roles_add := (\<lambda>u. False) \<rparr>"

definition sampleMentions :: "(snowflake \<times> int) list" where
  "sampleMentions = [(''2'', 40), (''4'', 40), (''1'', 50), (''3'', 41)]"

text \<open>Thirty-one regular members in rank order, with 100 down to 70 mentions.\<close>

definition manyRegulars :: "userData list" where
  "manyRegulars =
     map (\<lambda>k. \<lparr> userId = [char_of (48 + k div 10), char_of (48 + k mod 10)],
                 username = ''Reg'', mentionCount = 100 - int k, member = annM \<rparr>)
       [0 ..< 31]"

definition sampleQualified :: qualification where
  "sampleQualified = determineQualified [ann, bob] [sam, sue] []"

definition danStore :: "int \<Rightarrow> graceStore" where
  "danStore w = Map.empty(''6'' \<mapsto> \<lparr> g_username = ''Dan'', weeksOut = w, firstWeekOut = ''t'' \<rparr>)"

definition samStore :: graceStore where
  "samStore = Map.empty(''3'' \<mapsto> \<lparr> g_username = ''Sam'', weeksOut = 2, firstWeekOut = ''t'' \<rparr>)"

definition sampleRun :: "string \<times> guild \<times> qualification" where
  "sampleRun = (''t'', sampleGuild, sampleQualified)"

definition sampleRun_v1 :: "string \<times> guild \<times> userData list \<times> userData list" where
  "sampleRun_v1 = (''t'', sampleGuild, [ann, bob], [sam, sue])"

section \<open>Threshold and special qualification\<close>

lemma sorted_sortByMentions: "sorted (map (\<lambda>u. - mentionCount u) (sortByMentions us))"
  by (simp add: sortByMentions_def)

lemma sorted_last_greatest:
  "sorted (map f xs) \<Longrightarrow> u \<in> set xs \<Longrightarrow> f u \<le> f (last xs)"
  by (induction xs) auto

lemma sorted_take_last_le:
  assumes "sorted (map (\<lambda>u. - mentionCount u) us)" "u \<in> set (take n us)"
  shows "mentionCount (last (take n us)) \<le> mentionCount u"
proof -
  have "sorted (take n (map (\<lambda>u. - mentionCount u) us))"
    using assms(1) by (rule sorted_wrt_take)
  then have "sorted (map (\<lambda>u. - mentionCount u) (take n us))"
    by (simp only: take_map)
  from sorted_last_greatest [OF this assms(2)] show ?thesis by simp
qed

lemma threshold_last:
  "threshold (determineQualified r s p) =
     (if r = [] then 0 else mentionCount (last (top30Regular (determineQualified r s p))))"
  by (simp add: determineQualified_def Let_def TOP_COUNT_def last_conv_nth)

lemma categorize_sample:
  "categorizeMembers sampleConfig sampleGuild sampleMentions = ([ann, bob], [sam, sue], [])"
  by (simp add: categorizeMembers_def sampleConfig_def sampleGuild_def sampleMentions_def
      sortByMentions_def hasRoleIn_def annM_def bobM_def samM_def sueM_def
      ann_def bob_def sam_def sue_def)

text \<open>
  C2, as stated: the threshold is 0 whenever fewer than \<open>TOP_COUNT\<close> regular members
  are evidenced. It fails with one regular member of 40 mentions: the threshold is 40.
\<close>

theorem threshold_few_regulars_counterexample:
  "length [bob] < TOP_COUNT \<and> threshold (determineQualified [bob] [] []) = 40"
  by (simp add: TOP_COUNT_def determineQualified_def bob_def)

text \<open>
  C2, amended: the qualified regular members are the first 30 of the ranking, and the
  threshold is the mention count of the last of them, the lowest-ranked qualified
  regular member; it is 0 only when no regular member is evidenced. On the ranking
  that \<open>categorizeMembers\<close> produces, no qualified regular member has fewer mentions
  than the threshold.
\<close>

theorem threshold_is_last_qualified_regular:
  "top30Regular (determineQualified r s p) = take 30 r
   \<and> threshold (determineQualified r s p) =
       (if r = [] then 0 else mentionCount (last (take 30 r)))
   \<and> (categorizeMembers cfg g ms = (r, s, p) \<longrightarrow>
        (\<forall>u \<in> set (take 30 r). threshold (determineQualified r s p) \<le> mentionCount u))"
proof (intro conjI impI ballI)
  show t: "top30Regular (determineQualified r s p) = take 30 r"
    by (simp add: determineQualified_def Let_def TOP_COUNT_def)
  show "threshold (determineQualified r s p) =
       (if r = [] then 0 else mentionCount (last (take 30 r)))"
    using threshold_last [of r s p] by (simp add: t)
next
  fix u assume c: "categorizeMembers cfg g ms = (r, s, p)"
    and u: "u \<in> set (take 30 r)"
  from c obtain r0 where "r = sortByMentions r0"
    by (auto simp: categorizeMembers_def split: prod.splits)
  then have srt: "sorted (map (\<lambda>u. - mentionCount u) r)"
    by (simp add: sorted_sortByMentions)
  from u have "r \<noteq> []" by (cases r) auto
  then have "threshold (determineQualified r s p) = mentionCount (last (take 30 r))"
    using threshold_last [of r s p]
    by (simp add: determineQualified_def Let_def TOP_COUNT_def)
  then show "threshold (determineQualified r s p) \<le> mentionCount u"
    using sorted_take_last_le [OF srt u] by simp
qed

theorem threshold_is_last_qualified_regular_witness:
  "length manyRegulars = 31
   \<and> length (top30Regular (determineQualified manyRegulars [sam, sue] [])) = 30
   \<and> mentionCount (last manyRegulars) = 70
   \<and> threshold (determineQualified manyRegulars [sam, sue] []) = 71
   \<and> categorizeMembers sampleConfig sampleGuild sampleMentions = ([ann, bob], [sam, sue], [])
   \<and> threshold (determineQualified [ann, bob] [sam, sue] []) = 40
   \<and> threshold (determineQualified [ann, bob] [sam, sue] []) \<le> mentionCount ann
   \<and> threshold (determineQualified [] [sam, sue] []) = 0"
proof -
  have m: "length manyRegulars = 31" "mentionCount (last manyRegulars) = 70"
    "mentionCount (last (take 30 manyRegulars)) = 71" "manyRegulars \<noteq> []"
    by (simp_all add: manyRegulars_def take_map last_map)
  from threshold_is_last_qualified_regular [of manyRegulars "[sam, sue]" "[]"]
       threshold_is_last_qualified_regular
          [of "[ann, bob]" "[sam, sue]" "[]" sampleConfig sampleGuild sampleMentions]
       threshold_is_last_qualified_regular [of "[]" "[sam, sue]" "[]"]
       categorize_sample m
  show ?thesis by (simp add: ann_def bob_def)
qed

text \<open>
  C3: every member of \<open>qualifiedSpecial\<close> has strictly more mentions than the
  threshold, so a special member that ties the threshold does not qualify; and when no
  regular member is evidenced the threshold is 0 and every special member with at least
  one mention qualifies.
\<close>

theorem qualifiedSpecial_beats_threshold:
  "(\<forall>u \<in> set (qualifiedSpecial (determineQualified r s p)).
       mentionCount u > threshold (determineQualified r s p))
   \<and> (\<forall>u. u \<in> set (qualifiedSpecial (determineQualified r s p)) \<longleftrightarrow>
            u \<in> set s \<and> mentionCount u > threshold (determineQualified r s p))
   \<and> (r = [] \<longrightarrow> threshold (determineQualified r s p) = 0 \<and>
        (\<forall>u \<in> set s. mentionCount u \<ge> 1 \<longrightarrow>
            u \<in> set (qualifiedSpecial (determineQualified r s p))))"
  by (auto simp: determineQualified_def Let_def)

theorem qualifiedSpecial_beats_threshold_witness:
  "sam \<in> set (qualifiedSpecial (determineQualified [ann, bob] [sam, sue] []))
   \<and> mentionCount sam > threshold (determineQualified [ann, bob] [sam, sue] [])
   \<and> mentionCount sue = threshold (determineQualified [ann, bob] [sam, sue] [])
   \<and> sue \<notin> set (qualifiedSpecial (determineQualified [ann, bob] [sam, sue] []))
   \<and> threshold (determineQualified [] [sueOnce] []) = 0
   \<and> mentionCount sueOnce \<ge> 1
   \<and> sueOnce \<in> set (qualifiedSpecial (determineQualified [] [sueOnce] []))"
  using qualifiedSpecial_beats_threshold [of "[ann, bob]" "[sam, sue]" "[]"]
        qualifiedSpecial_beats_threshold [of "[]" "[sueOnce]" "[]"]
  by (simp add: determineQualified_def TOP_COUNT_def ann_def bob_def sam_def sue_def sueOnce_def)

section \<open>Lemmas on the loops of manageRoles\<close>

lemmas push_defs = pushAdded_def pushRemoved_def pushGrace_def pushSkipped_def
lemmas ids_defs = addedIds_def removedIds_def graceIds_def skippedIds_def

lemma addOne_log:
  "rolesRemoved (log (stateOf (addOne cfg g u st))) = rolesRemoved (log st)"
  "graceUsers (log (stateOf (addOne cfg g u st))) = graceUsers (log st)"
  "protectedSkipped (log (stateOf (addOne cfg g u st))) = protectedSkipped (log st)"
  by (simp_all add: addOne_def stateOf_def Let_def push_defs)

lemma addOne_added:
  "addOne cfg g u st = Resolved s \<Longrightarrow>
   rolesAdded (log s) =
     rolesAdded (log st) @ map toMentionEntry (filter (\<lambda>u. HIERARCH_ROLE_ID cfg \<notin> set (roleIds (member u))) [u])"
  by (auto simp: addOne_def Let_def push_defs split: if_splits)

lemma addOne_grace:
  "graceTracking (stateOf (addOne cfg g u st)) = (graceTracking st)(userId u := None)"
  by (auto simp: addOne_def stateOf_def Let_def)

lemma addOne_resolved:
  "(\<exists>s. addOne cfg g u st = Resolved s) \<longleftrightarrow>
   (HIERARCH_ROLE_ID cfg \<in> set (roleIds (member u)) \<or> roles_add g (userId u))"
  by (auto simp: addOne_def Let_def)

lemma addQualified_Cons_Resolved:
  "addQualified cfg g (u # us) st = Resolved s \<longleftrightarrow>
   (\<exists>s1. addOne cfg g u st = Resolved s1 \<and> addQualified cfg g us s1 = Resolved s)"
  by (auto split: attempt.splits)

lemma addQualified_log:
  "rolesRemoved (log (stateOf (addQualified cfg g us st))) = rolesRemoved (log st)"
  "graceUsers (log (stateOf (addQualified cfg g us st))) = graceUsers (log st)"
  "protectedSkipped (log (stateOf (addQualified cfg g us st))) = protectedSkipped (log st)"
proof (induction us arbitrary: st)
  case Nil
  { case 1 show ?case by (simp add: stateOf_def) }
  { case 2 show ?case by (simp add: stateOf_def) }
  { case 3 show ?case by (simp add: stateOf_def) }
next
  case (Cons u us)
  { case 1 show ?case
      using Cons.IH(1) [of "stateOf (addOne cfg g u st)"] addOne_log(1) [of cfg g u st]
      by (auto simp: stateOf_def split: attempt.splits) }
  { case 2 show ?case
      using Cons.IH(2) [of "stateOf (addOne cfg g u st)"] addOne_log(2) [of cfg g u st]
      by (auto simp: stateOf_def split: attempt.splits) }
  { case 3 show ?case
      using Cons.IH(3) [of "stateOf (addOne cfg g u st)"] addOne_log(3) [of cfg g u st]
      by (auto simp: stateOf_def split: attempt.splits) }
qed

lemma addQualified_added:
  "addQualified cfg g us st = Resolved s \<Longrightarrow>
   rolesAdded (log s) =
     rolesAdded (log st) @ map toMentionEntry (filter (\<lambda>u. HIERARCH_ROLE_ID cfg \<notin> set (roleIds (member u))) us)"
proof (induction us arbitrary: st)
  case Nil
  then show ?case by simp
next
  case (Cons u us)
  from Cons.prems [unfolded addQualified_Cons_Resolved] obtain s1 where
      s1: "addOne cfg g u st = Resolved s1" "addQualified cfg g us s1 = Resolved s"
    by blast
  from Cons.IH [OF s1(2)] addOne_added [OF s1(1)] show ?case by simp
qed

lemma addQualified_grace:
  "addQualified cfg g us st = Resolved s \<Longrightarrow>
   graceTracking s x = (if x \<in> userId ` set us then None else graceTracking st x)"
proof (induction us arbitrary: st)
  case Nil
  then show ?case by simp
next
  case (Cons u us)
  from Cons.prems [unfolded addQualified_Cons_Resolved] obtain s1 where
      s1: "addOne cfg g u st = Resolved s1" "addQualified cfg g us s1 = Resolved s"
    by blast
  have "graceTracking s1 = (graceTracking st)(userId u := None)"
    using addOne_grace [of cfg g u st] s1(1) by (simp add: stateOf_def)
  with Cons.IH [OF s1(2)] show ?case by auto
qed

lemma addQualified_resolved:
  "(\<exists>s. addQualified cfg g us st = Resolved s) \<longleftrightarrow> grantsResolve cfg g us"
proof (induction us arbitrary: st)
  case Nil
  show ?case by (simp add: grantsResolve_def)
next
  case (Cons u us)
  have "(\<exists>s. addQualified cfg g (u # us) st = Resolved s) \<longleftrightarrow>
        (\<exists>s1. addOne cfg g u st = Resolved s1 \<and> (\<exists>s. addQualified cfg g us s1 = Resolved s))"
    unfolding addQualified_Cons_Resolved by blast
  also have "\<dots> \<longleftrightarrow> (\<exists>s1. addOne cfg g u st = Resolved s1) \<and> grantsResolve cfg g us"
    using Cons.IH by auto
  also have "\<dots> \<longleftrightarrow> grantsResolve cfg g (u # us)"
    by (simp add: addOne_resolved grantsResolve_def)
  finally show ?case .
qed

lemma handleMember_added:
  "rolesAdded (log (handleMember G cfg ts g Q m st)) = rolesAdded (log st)"
  "protectedSkipped (log (handleMember G cfg ts g Q m st)) = protectedSkipped (log st)"
  by (simp_all add: handleMember_def Let_def push_defs split: option.splits)

lemma handleHolders_added:
  "rolesAdded (log (handleHolders G cfg ts g Q ms st)) = rolesAdded (log st)"
  "protectedSkipped (log (handleHolders G cfg ts g Q ms st)) = protectedSkipped (log st)"
  by (induction ms arbitrary: st; simp add: handleMember_added)+

lemma handleMember_cases:
  "(removedIds (log (handleMember G cfg ts g Q m st)) = removedIds (log st) \<and>
    graceIds (log (handleMember G cfg ts g Q m st)) = graceIds (log st))
   \<or> (m \<notin> Q \<and> removedIds (log (handleMember G cfg ts g Q m st)) = removedIds (log st) @ [m] \<and>
    graceIds (log (handleMember G cfg ts g Q m st)) = graceIds (log st))
   \<or> (m \<notin> Q \<and> removedIds (log (handleMember G cfg ts g Q m st)) = removedIds (log st) \<and>
    graceIds (log (handleMember G cfg ts g Q m st)) = graceIds (log st) @ [m])"
  by (simp add: handleMember_def Let_def push_defs ids_defs split: option.splits)

lemma handleMember_skipped:
  "skippedIds (log (handleMember G cfg ts g Q m st)) = skippedIds (log st)"
  by (simp add: skippedIds_def handleMember_added)

lemma handleMember_decided:
  assumes "decided D (log st)" "m \<notin> D"
  shows "decided (insert m D) (log (handleMember G cfg ts g Q m st))"
  using assms handleMember_cases [of G cfg ts g Q m st]
        handleMember_skipped [of G cfg ts g Q m st]
  unfolding decided_def by auto

lemma handleMember_offQualified:
  assumes "offQualified Q (log st)"
  shows "offQualified Q (log (handleMember G cfg ts g Q m st))"
  using assms handleMember_cases [of G cfg ts g Q m st]
        handleMember_skipped [of G cfg ts g Q m st]
  unfolding offQualified_def by auto

lemma handleHolders_decided:
  "decided D (log st) \<Longrightarrow> distinct ms \<Longrightarrow> set ms \<inter> D = {} \<Longrightarrow>
   decided (D \<union> set ms) (log (handleHolders G cfg ts g Q ms st))"
proof (induction ms arbitrary: st D)
  case Nil
  then show ?case by simp
next
  case (Cons m ms)
  have "decided (insert m D \<union> set ms)
          (log (handleHolders G cfg ts g Q ms (handleMember G cfg ts g Q m st)))"
    using Cons.prems by (intro Cons.IH handleMember_decided) auto
  then show ?case by simp
qed

lemma handleHolders_offQualified:
  "offQualified Q (log st) \<Longrightarrow> offQualified Q (log (handleHolders G cfg ts g Q ms st))"
  by (induction ms arbitrary: st) (simp_all add: handleMember_offQualified)

lemma addOne_v1_log:
  "rolesRemoved (log (addOne_v1 cfg u st)) = rolesRemoved (log st)"
  "graceUsers (log (addOne_v1 cfg u st)) = graceUsers (log st)"
  "protectedSkipped (log (addOne_v1 cfg u st)) = protectedSkipped (log st)"
  "rolesAdded (log (addOne_v1 cfg u st)) =
     rolesAdded (log st) @ map toMentionEntry (filter (\<lambda>u. HIERARCH_ROLE_ID cfg \<notin> set (roleIds (member u))) [u])"
  by (simp_all add: addOne_v1_def Let_def push_defs)

lemma addOne_v1_grace:
  "graceTracking (addOne_v1 cfg u st) = (graceTracking st)(userId u := None)"
  by (auto simp: addOne_v1_def Let_def)

lemma addOne_v1_roleOps: "roleOps (addOne_v1 cfg u st) = roleOps st"
  by (simp add: addOne_v1_def Let_def)

lemma addTop30_v1_log:
  "rolesRemoved (log (addTop30_v1 cfg us st)) = rolesRemoved (log st)"
  "graceUsers (log (addTop30_v1 cfg us st)) = graceUsers (log st)"
  "protectedSkipped (log (addTop30_v1 cfg us st)) = protectedSkipped (log st)"
  "rolesAdded (log (addTop30_v1 cfg us st)) =
     rolesAdded (log st) @ map toMentionEntry (filter (\<lambda>u. HIERARCH_ROLE_ID cfg \<notin> set (roleIds (member u))) us)"
  by (induction us arbitrary: st; simp add: addOne_v1_log)+

lemma addTop30_v1_grace:
  "graceTracking (addTop30_v1 cfg us st) x =
     (if x \<in> userId ` set us then None else graceTracking st x)"
  by (induction us arbitrary: st) (auto simp: addOne_v1_grace)

lemma clearGrace_v1_log: "log (clearGrace_v1 us st) = log st"
  by (induction us arbitrary: st) auto

lemma clearGrace_v1_roleOps: "roleOps (clearGrace_v1 us st) = roleOps st"
  by (induction us arbitrary: st) auto

lemma clearGrace_v1_grace:
  "graceTracking (clearGrace_v1 us st) x =
     (if x \<in> userId ` set us then None else graceTracking st x)"
  by (induction us arbitrary: st) auto

lemma handleMember_v1_added:
  "rolesAdded (log (handleMember_v1 G cfg ts g Q m st)) = rolesAdded (log st)"
  by (simp_all add: handleMember_v1_def Let_def push_defs split: option.splits)

lemma handleHolders_v1_added:
  "rolesAdded (log (handleHolders_v1 G cfg ts g Q ms st)) = rolesAdded (log st)"
  by (induction ms arbitrary: st; simp add: handleMember_v1_added)+

lemma handleMember_v1_cases:
  "(removedIds (log (handleMember_v1 G cfg ts g Q m st)) = removedIds (log st) \<and>
    graceIds (log (handleMember_v1 G cfg ts g Q m st)) = graceIds (log st) \<and>
    skippedIds (log (handleMember_v1 G cfg ts g Q m st)) = skippedIds (log st))
   \<or> (m \<notin> Q \<and> removedIds (log (handleMember_v1 G cfg ts g Q m st)) = removedIds (log st) @ [m] \<and>
    graceIds (log (handleMember_v1 G cfg ts g Q m st)) = graceIds (log st) \<and>
    skippedIds (log (handleMember_v1 G cfg ts g Q m st)) = skippedIds (log st))
   \<or> (m \<notin> Q \<and> removedIds (log (handleMember_v1 G cfg ts g Q m st)) = removedIds (log st) \<and>
    graceIds (log (handleMember_v1 G cfg ts g Q m st)) = graceIds (log st) @ [m] \<and>
    skippedIds (log (handleMember_v1 G cfg ts g Q m st)) = skippedIds (log st))
   \<or> (m \<notin> Q \<and> removedIds (log (handleMember_v1 G cfg ts g Q m st)) = removedIds (log st) \<and>
    graceIds (log (handleMember_v1 G cfg ts g Q m st)) = graceIds (log st) \<and>
    skippedIds (log (handleMember_v1 G cfg ts g Q m st)) = skippedIds (log st) @ [m])"
  by (simp add: handleMember_v1_def Let_def push_defs ids_defs split: option.splits)

lemma handleMember_v1_decided:
  assumes "decided D (log st)" "m \<notin> D"
  shows "decided (insert m D) (log (handleMember_v1 G cfg ts g Q m st))"
  using assms handleMember_v1_cases [of G cfg ts g Q m st]
  unfolding decided_def by auto

lemma handleMember_v1_offQualified:
  assumes "offQualified Q (log st)"
  shows "offQualified Q (log (handleMember_v1 G cfg ts g Q m st))"
  using assms handleMember_v1_cases [of G cfg ts g Q m st]
  unfolding offQualified_def by auto

lemma handleHolders_v1_decided:
  "decided D (log st) \<Longrightarrow> distinct ms \<Longrightarrow> set ms \<inter> D = {} \<Longrightarrow>
   decided (D \<union> set ms) (log (handleHolders_v1 G cfg ts g Q ms st))"
proof (induction ms arbitrary: st D)
  case Nil
  then show ?case by simp
next
  case (Cons m ms)
  have "decided (insert m D \<union> set ms)
          (log (handleHolders_v1 G cfg ts g Q ms (handleMember_v1 G cfg ts g Q m st)))"
    using Cons.prems by (intro Cons.IH handleMember_v1_decided) auto
  then show ?case by simp
qed

lemma handleHolders_v1_offQualified:
  "offQualified Q (log st) \<Longrightarrow> offQualified Q (log (handleHolders_v1 G cfg ts g Q ms st))"
  by (induction ms arbitrary: st) (simp_all add: handleMember_v1_offQualified)

lemma listsDisjointI:
  assumes "decided D l" "offQualified Q l" "set (addedIds l) \<subseteq> Q"
  shows "listsDisjoint l"
  using assms unfolding decided_def offQualified_def listsDisjoint_def by blast

lemma handleMember_grace_other:
  "x \<noteq> m \<or> x \<in> Q \<Longrightarrow> graceTracking (handleMember G cfg ts g Q m st) x = graceTracking st x"
  by (auto simp: handleMember_def Let_def split: option.splits)

lemma handleHolders_grace_other:
  "x \<notin> set ms \<or> x \<in> Q \<Longrightarrow> graceTracking (handleHolders G cfg ts g Q ms st) x = graceTracking st x"
  by (induction ms arbitrary: st) (auto simp: handleMember_grace_other)

lemma handleMember_v1_grace_other:
  "x \<noteq> m \<or> x \<in> Q \<Longrightarrow> graceTracking (handleMember_v1 G cfg ts g Q m st) x = graceTracking st x"
  by (auto simp: handleMember_v1_def Let_def split: option.splits)

lemma handleHolders_v1_grace_other:
  "x \<notin> set ms \<or> x \<in> Q \<Longrightarrow> graceTracking (handleHolders_v1 G cfg ts g Q ms st) x = graceTracking st x"
  by (induction ms arbitrary: st) (auto simp: handleMember_v1_grace_other)

lemma manageRolesG_qualified_cleared:
  assumes "logFile (manageRolesG G cfg ts g q gf) \<noteq> None" "u \<in> qualifiedIds q"
  shows "loadGrace (graceFile (manageRolesG G cfg ts g q gf)) u = None"
proof -
  from assms(2) have "u \<in> userId ` set (allQualified q)"
    by (auto simp: qualifiedIds_def allQualified_def)
  then show ?thesis using assms
    by (auto simp: manageRolesG_def Let_def loadGrace_def handleHolders_grace_other
        addQualified_grace split: option.splits attempt.splits)
qed

lemma manageRolesG_v1_qualified_cleared:
  assumes "logFile (manageRolesG_v1 G cfg ts g t s gf) \<noteq> None" "u \<in> activeIds_v1 t s"
  shows "loadGrace (graceFile (manageRolesG_v1 G cfg ts g t s gf)) u = None"
  using assms
  by (auto simp: manageRolesG_v1_def Let_def loadGrace_def handleHolders_v1_grace_other
      clearGrace_v1_grace addTop30_v1_grace activeIds_v1_def split: option.splits)

lemma graceInv_delete: "graceInv G gt \<Longrightarrow> graceInv G (gt(x := None))"
  by (auto simp: graceInv_def)

lemma graceInv_put: "graceInv G gt \<Longrightarrow> 1 \<le> weeksOut e \<Longrightarrow> weeksOut e \<le> G \<Longrightarrow> graceInv G (gt(x \<mapsto> e))"
  by (auto simp: graceInv_def)

lemma addQualified_graceInv:
  "graceInv G (graceTracking st) \<Longrightarrow> graceInv G (graceTracking (stateOf (addQualified cfg g us st)))"
proof (induction us arbitrary: st)
  case Nil
  then show ?case by (simp add: stateOf_def)
next
  case (Cons u us)
  have i: "graceInv G (graceTracking (stateOf (addOne cfg g u st)))"
    using Cons.prems by (simp add: addOne_grace graceInv_delete)
  show ?case using i Cons.IH [of "stateOf (addOne cfg g u st)"]
    by (auto simp: stateOf_def split: attempt.splits)
qed

lemma addTop30_v1_graceInv:
  "graceInv G (graceTracking st) \<Longrightarrow> graceInv G (graceTracking (addTop30_v1 cfg us st))"
  by (induction us arbitrary: st) (simp_all add: addOne_v1_grace graceInv_delete)

lemma clearGrace_v1_graceInv:
  "graceInv G (graceTracking st) \<Longrightarrow> graceInv G (graceTracking (clearGrace_v1 us st))"
  by (induction us arbitrary: st) (simp_all add: graceInv_delete)

lemma handleMember_graceInv:
  assumes "graceInv G (graceTracking st)" "0 < G" "roles_remove g m"
  shows "graceInv G (graceTracking (handleMember G cfg ts g Q m st))"
proof -
  have "\<And>e. graceTracking st m = Some e \<Longrightarrow> 1 \<le> weeksOut e"
    using assms(1) by (auto simp: graceInv_def)
  then show ?thesis using assms
    by (auto simp: handleMember_def Let_def split: option.splits
        intro!: graceInv_delete graceInv_put)
qed

lemma handleMember_v1_graceInv:
  assumes "graceInv G (graceTracking st)" "0 < G"
  shows "graceInv G (graceTracking (handleMember_v1 G cfg ts g Q m st))"
proof -
  have "\<And>e. graceTracking st m = Some e \<Longrightarrow> 1 \<le> weeksOut e"
    using assms(1) by (auto simp: graceInv_def)
  then show ?thesis using assms
    by (auto simp: handleMember_v1_def Let_def split: option.splits
        intro!: graceInv_delete graceInv_put)
qed

lemma handleHolders_graceInv:
  "graceInv G (graceTracking st) \<Longrightarrow> 0 < G \<Longrightarrow> \<forall>m \<in> set ms. roles_remove g m \<Longrightarrow>
   graceInv G (graceTracking (handleHolders G cfg ts g Q ms st))"
  by (induction ms arbitrary: st) (simp_all add: handleMember_graceInv)

lemma handleHolders_v1_graceInv:
  "graceInv G (graceTracking st) \<Longrightarrow> 0 < G \<Longrightarrow>
   graceInv G (graceTracking (handleHolders_v1 G cfg ts g Q ms st))"
  by (induction ms arbitrary: st) (simp_all add: handleMember_v1_graceInv)

lemma manageRolesG_graceInv:
  assumes "graceInv G (loadGrace gf)" "0 < G" "\<forall>m. roles_remove g m"
  shows "graceInv G (loadGrace (graceFile (manageRolesG G cfg ts g q gf)))"
proof (cases "roles_fetch g (HIERARCH_ROLE_ID cfg)")
  case None
  then show ?thesis using assms(1) by (simp add: manageRolesG_def)
next
  case (Some holders)
  define st0 where "st0 = \<lparr> graceTracking = loadGrace gf, log = initialLog ts q, roleOps = [] \<rparr>"
  show ?thesis
  proof (cases "addQualified cfg g (allQualified q) st0")
    case (Rejected s)
    then show ?thesis using Some assms(1) by (simp add: manageRolesG_def Let_def st0_def)
  next
    case (Resolved st1)
    have "graceInv G (graceTracking st1)"
      using addQualified_graceInv [of G st0 cfg g "allQualified q"] assms(1) Resolved
      by (simp add: st0_def stateOf_def)
    then have "graceInv G (graceTracking (handleHolders G cfg ts g (qualifiedIds q) holders st1))"
      using assms(2,3) by (intro handleHolders_graceInv) auto
    then show ?thesis using Some Resolved
      by (simp add: manageRolesG_def Let_def st0_def loadGrace_def [of "Some x" for x])
  qed
qed

lemma manageRolesG_v1_graceInv:
  assumes "graceInv G (loadGrace gf)" "0 < G"
  shows "graceInv G (loadGrace (graceFile (manageRolesG_v1 G cfg ts g t s gf)))"
proof (cases "roles_fetch g (HIERARCH_ROLE_ID cfg)")
  case None
  then show ?thesis using assms(1) by (simp add: manageRolesG_v1_def)
next
  case (Some holders)
  then show ?thesis using assms
    by (simp add: manageRolesG_v1_def Let_def loadGrace_def [of "Some x" for x]
        handleHolders_v1_graceInv addTop30_v1_graceInv clearGrace_v1_graceInv)
qed

lemma consecutiveRuns_graceInv:
  assumes "0 < G"
  shows "graceInv G (loadGrace gf) \<Longrightarrow> \<forall>(ts, g, q) \<in> set runs. \<forall>m. roles_remove g m \<Longrightarrow>
         r \<in> set (consecutiveRuns G cfg runs gf) \<Longrightarrow>
         graceInv G (loadGrace (graceFile r))"
proof (induction runs arbitrary: gf)
  case Nil
  then show ?case by simp
next
  case (Cons x runs)
  obtain ts g q where x: "x = (ts, g, q)" by (cases x)
  let ?r1 = "manageRolesG G cfg ts g q gf"
  have rr: "\<forall>m. roles_remove g m" using Cons.prems(2) by (simp add: x)
  have i1: "graceInv G (loadGrace (graceFile ?r1))"
    using Cons.prems(1) assms rr by (rule manageRolesG_graceInv)
  from Cons.prems(3) have "r = ?r1 \<or> r \<in> set (consecutiveRuns G cfg runs (graceFile ?r1))"
    by (simp add: x Let_def)
  then show ?case using i1 Cons.IH [OF i1] Cons.prems(2) by auto
qed

lemma consecutiveRuns_v1_graceInv:
  assumes "0 < G"
  shows "graceInv G (loadGrace gf) \<Longrightarrow> r \<in> set (consecutiveRuns_v1 G cfg runs gf) \<Longrightarrow>
         graceInv G (loadGrace (graceFile r))"
proof (induction runs arbitrary: gf)
  case Nil
  then show ?case by simp
next
  case (Cons x runs)
  obtain ts g t s where x: "x = (ts, g, t, s)" by (cases x)
  let ?r1 = "manageRolesG_v1 G cfg ts g t s gf"
  have i1: "graceInv G (loadGrace (graceFile ?r1))"
    using Cons.prems(1) assms by (rule manageRolesG_v1_graceInv)
  from Cons.prems(2) have "r = ?r1 \<or> r \<in> set (consecutiveRuns_v1 G cfg runs (graceFile ?r1))"
    by (simp add: x Let_def)
  then show ?case using i1 Cons.IH [OF i1] by blast
qed

lemma graceInv_cold: "graceInv G (loadGrace None)"
  by (simp add: graceInv_def loadGrace_def)

lemmas view_defs = userView_def graceUsersOf_def removedOf_def

lemma handleMember_view_other:
  "m \<noteq> u \<Longrightarrow> userView u (handleMember G cfg ts g Q m st) = userView u st"
  by (auto simp: handleMember_def Let_def view_defs push_defs split: option.splits)

lemma handleHolders_view_other:
  "u \<notin> set ms \<Longrightarrow> userView u (handleHolders G cfg ts g Q ms st) = userView u st"
  by (induction ms arbitrary: st) (auto simp: handleMember_view_other)

lemma handleHolders_append:
  "handleHolders G cfg ts g Q (xs @ ys) st =
     handleHolders G cfg ts g Q ys (handleHolders G cfg ts g Q xs st)"
  by (induction xs arbitrary: st) auto

lemma handleHolders_view:
  assumes "distinct ms" "u \<in> set ms"
  shows "userView u (handleHolders G cfg ts g Q ms st) =
         userView u (handleMember G cfg ts g Q u st)"
proof -
  from assms(2) obtain xs ys where ms: "ms = xs @ u # ys" by (auto simp: in_set_conv_decomp)
  with assms(1) have nx: "u \<notin> set xs" and ny: "u \<notin> set ys" by auto
  let ?st1 = "handleHolders G cfg ts g Q xs st"
  have v1: "userView u ?st1 = userView u st" using nx by (rule handleHolders_view_other)
  have "userView u (handleHolders G cfg ts g Q ms st) = userView u (handleMember G cfg ts g Q u ?st1)"
    by (simp add: ms handleHolders_append handleHolders_view_other [OF ny])
  also have "\<dots> = userView u (handleMember G cfg ts g Q u st)"
    using v1 by (auto simp: handleMember_def Let_def view_defs push_defs split: option.splits)
  finally show ?thesis .
qed

lemma handleMember_view_self:
  assumes "u \<notin> Q" "members_fetch g u = Some m" "\<not> hasRoleIn (PROTECTED_ROLES_IDS cfg) m"
    and "graceUsersOf u (log st) = []" "removedOf u (log st) = []" "roles_remove g u"
  shows "userView u (handleMember G cfg ts g Q u st) = graceTransition_spec G ts u m (graceTracking st u)"
  using assms
  by (auto simp: handleMember_def Let_def view_defs push_defs graceTransition_spec_def split: option.splits)

lemma handleMember_view_rejected:
  assumes "u \<notin> Q" "members_fetch g u = Some m" "\<not> hasRoleIn (PROTECTED_ROLES_IDS cfg) m"
    and "graceUsersOf u (log st) = []" "removedOf u (log st) = []" "\<not> roles_remove g u"
    and "graceTracking st u = Some e" "weeksOut e + 1 > G" "0 < G"
  shows "userView u (handleMember G cfg ts g Q u st) = ([], [], Some (e\<lparr> weeksOut := weeksOut e + 1 \<rparr>))"
  using assms
  by (auto simp: handleMember_def Let_def view_defs push_defs split: option.splits)

lemma addQualified_view:
  assumes "addQualified cfg g us st = Resolved s" "u \<notin> userId ` set us"
  shows "userView u s = userView u st"
  using addQualified_log [of cfg g us st] addQualified_grace [OF assms(1), of u] assms
  by (simp add: view_defs stateOf_def)

lemma manageRolesG_view:
  assumes "disqualifiedHolder cfg g (qualifiedIds q) u m" "grantsResolve cfg g (allQualified q)"
  shows "\<exists>st1. graceUsersOf u (log st1) = [] \<and> removedOf u (log st1) = []
           \<and> graceTracking st1 u = loadGrace gf u
           \<and> decisionsFor u (manageRolesG G cfg ts g q gf) =
               userView u (handleMember G cfg ts g (qualifiedIds q) u st1)
           \<and> logFile (manageRolesG G cfg ts g q gf) \<noteq> None"
proof -
  from assms(1) obtain holders where h: "roles_fetch g (HIERARCH_ROLE_ID cfg) = Some holders"
      "distinct holders" "u \<in> set holders"
    by (auto simp: disqualifiedHolder_def split: option.splits)
  from assms(1) have nq: "u \<notin> qualifiedIds q"
    by (auto simp: disqualifiedHolder_def)
  define st0 where "st0 = \<lparr> graceTracking = loadGrace gf, log = initialLog ts q, roleOps = [] \<rparr>"
  from assms(2) obtain st1 where st1: "addQualified cfg g (allQualified q) st0 = Resolved st1"
    using addQualified_resolved [of cfg g "allQualified q" st0] by blast
  define st2 where "st2 = handleHolders G cfg ts g (qualifiedIds q) holders st1"
  have r: "manageRolesG G cfg ts g q gf =
             \<lparr> threw = False, returned = Some (log st2), logFile = Some (log st2),
               graceFile = Some (graceTracking st2), mutations = roleOps st2 \<rparr>"
    using h(1) st1 by (simp add: manageRolesG_def Let_def st0_def st2_def)
  have "u \<notin> userId ` set (allQualified q)"
    using nq by (auto simp: qualifiedIds_def allQualified_def)
  then have v1: "userView u st1 = userView u st0"
    using st1 addQualified_view by blast
  have v0: "userView u st0 = ([], [], loadGrace gf u)"
    by (simp add: st0_def view_defs initialLog_def)
  from v1 v0 have e: "graceUsersOf u (log st1) = []" "removedOf u (log st1) = []"
      "graceTracking st1 u = loadGrace gf u"
    by (simp_all add: userView_def)
  have "userView u st2 = userView u (handleMember G cfg ts g (qualifiedIds q) u st1)"
    unfolding st2_def using h(2,3) by (rule handleHolders_view)
  then have "decisionsFor u (manageRolesG G cfg ts g q gf) =
               userView u (handleMember G cfg ts g (qualifiedIds q) u st1)"
    by (simp add: r decisionsFor_def userView_def loadGrace_def [of "Some x" for x])
  then show ?thesis using e r by auto
qed

lemma manageRolesG_decisions:
  assumes "disqualifiedHolder cfg g (qualifiedIds q) u m" "grantsResolve cfg g (allQualified q)"
    and "roles_remove g u"
  shows "decisionsFor u (manageRolesG G cfg ts g q gf) = graceTransition_spec G ts u m (loadGrace gf u)"
proof -
  from manageRolesG_view [OF assms(1,2), of gf G ts] obtain st1 where
    e: "graceUsersOf u (log st1) = []" "removedOf u (log st1) = []"
       "graceTracking st1 u = loadGrace gf u"
    and d: "decisionsFor u (manageRolesG G cfg ts g q gf) =
               userView u (handleMember G cfg ts g (qualifiedIds q) u st1)"
    by blast
  from assms(1) have nq: "u \<notin> qualifiedIds q" and f: "members_fetch g u = Some m"
      and np: "\<not> hasRoleIn (PROTECTED_ROLES_IDS cfg) m"
    by (auto simp: disqualifiedHolder_def)
  show ?thesis
    unfolding d using handleMember_view_self [OF nq f np e(1,2) assms(3), of G ts] e(3) by simp
qed

lemma manageRolesG_decisions_rejected:
  assumes "disqualifiedHolder cfg g (qualifiedIds q) u m" "grantsResolve cfg g (allQualified q)"
    and "\<not> roles_remove g u" "loadGrace gf u = Some e" "weeksOut e + 1 > G" "0 < G"
  shows "decisionsFor u (manageRolesG G cfg ts g q gf) =
           ([], [], Some (e\<lparr> weeksOut := weeksOut e + 1 \<rparr>))
         \<and> logFile (manageRolesG G cfg ts g q gf) \<noteq> None"
proof -
  from manageRolesG_view [OF assms(1,2), of gf G ts] obtain st1 where
    e: "graceUsersOf u (log st1) = []" "removedOf u (log st1) = []"
       "graceTracking st1 u = loadGrace gf u"
    and d: "decisionsFor u (manageRolesG G cfg ts g q gf) =
               userView u (handleMember G cfg ts g (qualifiedIds q) u st1)"
    and w: "logFile (manageRolesG G cfg ts g q gf) \<noteq> None"
    by blast
  from assms(1) have nq: "u \<notin> qualifiedIds q" and f: "members_fetch g u = Some m"
      and np: "\<not> hasRoleIn (PROTECTED_ROLES_IDS cfg) m"
    by (auto simp: disqualifiedHolder_def)
  have "graceTracking st1 u = Some e" using e(3) assms(4) by simp
  from handleMember_view_rejected [OF nq f np e(1,2) assms(3) this assms(5,6), of ts] d w
  show ?thesis by simp
qed

lemma handleMember_view_noexpiry:
  assumes "u \<notin> Q" "members_fetch g u = Some m" "\<not> hasRoleIn (PROTECTED_ROLES_IDS cfg) m"
    and "graceUsersOf u (log st) = []" "removedOf u (log st) = []" "0 < G"
    and "\<And>e. graceTracking st u = Some e \<Longrightarrow> weeksOut e + 1 \<le> G"
  shows "userView u (handleMember G cfg ts g Q u st) = graceTransition_spec G ts u m (graceTracking st u)"
proof (cases "graceTracking st u")
  case None
  then show ?thesis using assms(1-6)
    by (simp add: handleMember_def Let_def view_defs push_defs graceTransition_spec_def)
next
  case (Some e)
  with assms(7) have "\<not> weeksOut e + 1 > G" by fastforce
  then show ?thesis using Some assms(1-6)
    by (simp add: handleMember_def Let_def view_defs push_defs graceTransition_spec_def)
qed

lemma manageRolesG_decisions_noexpiry:
  assumes "disqualifiedHolder cfg g (qualifiedIds q) u m" "grantsResolve cfg g (allQualified q)"
    and "0 < G" "\<And>e. loadGrace gf u = Some e \<Longrightarrow> weeksOut e + 1 \<le> G"
  shows "decisionsFor u (manageRolesG G cfg ts g q gf) = graceTransition_spec G ts u m (loadGrace gf u)"
proof -
  from manageRolesG_view [OF assms(1,2), of gf G ts] obtain st1 where
    e: "graceUsersOf u (log st1) = []" "removedOf u (log st1) = []"
       "graceTracking st1 u = loadGrace gf u"
    and d: "decisionsFor u (manageRolesG G cfg ts g q gf) =
               userView u (handleMember G cfg ts g (qualifiedIds q) u st1)"
    by blast
  from assms(1) have nq: "u \<notin> qualifiedIds q" and f: "members_fetch g u = Some m"
      and np: "\<not> hasRoleIn (PROTECTED_ROLES_IDS cfg) m"
    by (auto simp: disqualifiedHolder_def)
  have "\<And>e. graceTracking st1 u = Some e \<Longrightarrow> weeksOut e + 1 \<le> G"
    using assms(4) e(3) by simp
  from handleMember_view_noexpiry [OF nq f np e(1,2) assms(3) this, of ts] e(3) d
  show ?thesis by simp
qed

lemma manageRolesG_written:
  "logFile (manageRolesG G cfg ts g q gf) \<noteq> None \<longleftrightarrow>
     roles_fetch g (HIERARCH_ROLE_ID cfg) \<noteq> None \<and> grantsResolve cfg g (allQualified q)"
  "\<not> (roles_fetch g (HIERARCH_ROLE_ID cfg) \<noteq> None \<and> grantsResolve cfg g (allQualified q)) \<Longrightarrow>
     graceFile (manageRolesG G cfg ts g q gf) = gf"
proof -
  define st0 where "st0 = \<lparr> graceTracking = loadGrace gf, log = initialLog ts q, roleOps = [] \<rparr>"
  have a: "(\<exists>s. addQualified cfg g (allQualified q) st0 = Resolved s) \<longleftrightarrow>
           grantsResolve cfg g (allQualified q)"
    by (rule addQualified_resolved)
  show "logFile (manageRolesG G cfg ts g q gf) \<noteq> None \<longleftrightarrow>
     roles_fetch g (HIERARCH_ROLE_ID cfg) \<noteq> None \<and> grantsResolve cfg g (allQualified q)"
    using a
    by (cases "addQualified cfg g (allQualified q) st0")
       (auto simp: manageRolesG_def Let_def st0_def split: option.splits)
  show "\<not> (roles_fetch g (HIERARCH_ROLE_ID cfg) \<noteq> None \<and> grantsResolve cfg g (allQualified q)) \<Longrightarrow>
     graceFile (manageRolesG G cfg ts g q gf) = gf"
    using a
    by (cases "addQualified cfg g (allQualified q) st0")
       (auto simp: manageRolesG_def Let_def st0_def split: option.splits)
qed

lemma handleMember_v1_view_other:
  "m \<noteq> u \<Longrightarrow> userView u (handleMember_v1 G cfg ts g Q m st) = userView u st"
  by (auto simp: handleMember_v1_def Let_def view_defs push_defs split: option.splits)

lemma handleHolders_v1_view_other:
  "u \<notin> set ms \<Longrightarrow> userView u (handleHolders_v1 G cfg ts g Q ms st) = userView u st"
  by (induction ms arbitrary: st) (auto simp: handleMember_v1_view_other)

lemma handleHolders_v1_append:
  "handleHolders_v1 G cfg ts g Q (xs @ ys) st =
     handleHolders_v1 G cfg ts g Q ys (handleHolders_v1 G cfg ts g Q xs st)"
  by (induction xs arbitrary: st) auto

lemma handleHolders_v1_view:
  assumes "distinct ms" "u \<in> set ms"
  shows "userView u (handleHolders_v1 G cfg ts g Q ms st) =
         userView u (handleMember_v1 G cfg ts g Q u st)"
proof -
  from assms(2) obtain xs ys where ms: "ms = xs @ u # ys" by (auto simp: in_set_conv_decomp)
  with assms(1) have nx: "u \<notin> set xs" and ny: "u \<notin> set ys" by auto
  let ?st1 = "handleHolders_v1 G cfg ts g Q xs st"
  have v1: "userView u ?st1 = userView u st" using nx by (rule handleHolders_v1_view_other)
  have "userView u (handleHolders_v1 G cfg ts g Q ms st) = userView u (handleMember_v1 G cfg ts g Q u ?st1)"
    by (simp add: ms handleHolders_v1_append handleHolders_v1_view_other [OF ny])
  also have "\<dots> = userView u (handleMember_v1 G cfg ts g Q u st)"
    using v1 by (auto simp: handleMember_v1_def Let_def view_defs push_defs split: option.splits)
  finally show ?thesis .
qed

lemma handleMember_v1_view_self:
  assumes "u \<notin> Q" "members_fetch g u = Some m" "\<not> hasRoleIn (PROTECTED_ROLES_IDS cfg) m"
    and "graceUsersOf u (log st) = []" "removedOf u (log st) = []" "0 < G"
  shows "userView u (handleMember_v1 G cfg ts g Q u st) = graceTransition_spec G ts u m (graceTracking st u)"
  using assms
  by (auto simp: handleMember_v1_def Let_def view_defs push_defs graceTransition_spec_def split: option.splits)

lemma manageRolesG_v1_decisions:
  assumes "disqualifiedHolder cfg g (activeIds_v1 t s) u m" "0 < G"
  shows "decisionsFor u (manageRolesG_v1 G cfg ts g t s gf) = graceTransition_spec G ts u m (loadGrace gf u)"
proof -
  from assms obtain holders where h: "roles_fetch g (HIERARCH_ROLE_ID cfg) = Some holders"
      "distinct holders" "u \<in> set holders"
    by (auto simp: disqualifiedHolder_def split: option.splits)
  from assms have nq: "u \<notin> activeIds_v1 t s" and f: "members_fetch g u = Some m"
      and np: "\<not> hasRoleIn (PROTECTED_ROLES_IDS cfg) m"
    by (auto simp: disqualifiedHolder_def)
  define st0 where "st0 = \<lparr> graceTracking = loadGrace gf, log = initialLog_v1 ts t s, roleOps = [] \<rparr>"
  define st2 where "st2 = clearGrace_v1 s (addTop30_v1 cfg t st0)"
  define st3 where "st3 = handleHolders_v1 G cfg ts g (activeIds_v1 t s) holders st2"
  have r: "manageRolesG_v1 G cfg ts g t s gf =
             \<lparr> threw = False, returned = None, logFile = Some (log st3),
               graceFile = Some (graceTracking st3), mutations = roleOps st3 \<rparr>"
    using h(1) by (simp add: manageRolesG_v1_def Let_def st0_def st2_def st3_def)
  have e: "graceUsersOf u (log st2) = []" "removedOf u (log st2) = []"
      "graceTracking st2 u = loadGrace gf u"
    using nq
    by (auto simp: st2_def st0_def view_defs clearGrace_v1_log clearGrace_v1_grace
        addTop30_v1_log addTop30_v1_grace initialLog_v1_def activeIds_v1_def)
  have "userView u st3 = userView u (handleMember_v1 G cfg ts g (activeIds_v1 t s) u st2)"
    unfolding st3_def using h(2,3) by (rule handleHolders_v1_view)
  also have "\<dots> = graceTransition_spec G ts u m (graceTracking st2 u)"
    using nq f np e(1,2) assms(2) by (rule handleMember_v1_view_self)
  finally have "userView u st3 = graceTransition_spec G ts u m (loadGrace gf u)"
    by (simp add: e(3))
  then show ?thesis
    by (simp add: r decisionsFor_def userView_def loadGrace_def [of "Some x" for x])
qed

lemma removedOf_empty: "removedOf u l = [] \<longleftrightarrow> u \<notin> set (removedIds l)"
  by (auto simp: removedOf_def removedIds_def filter_empty_conv)

lemma graceUsersOf_empty: "graceUsersOf u l = [] \<longleftrightarrow> u \<notin> set (graceIds l)"
  by (auto simp: graceUsersOf_def graceIds_def filter_empty_conv)

lemma handleMember_protected:
  assumes "protectedMember cfg g u"
  shows "userView u (handleMember G cfg ts g Q x st) = userView u st"
    and "RoleRemove u \<in> set (roleOps (handleMember G cfg ts g Q x st)) \<longleftrightarrow>
         RoleRemove u \<in> set (roleOps st)"
  using assms
  by (cases "x = u";
      auto simp: protectedMember_def handleMember_def Let_def view_defs push_defs
           split: option.splits)+

lemma handleHolders_protected:
  assumes "protectedMember cfg g u"
  shows "userView u (handleHolders G cfg ts g Q ms st) = userView u st
       \<and> (RoleRemove u \<in> set (roleOps (handleHolders G cfg ts g Q ms st)) \<longleftrightarrow>
         RoleRemove u \<in> set (roleOps st))"
  by (induction ms arbitrary: st) (simp_all add: handleMember_protected [OF assms])

lemma handleMember_v1_protected:
  assumes "protectedMember cfg g u"
  shows "userView u (handleMember_v1 G cfg ts g Q x st) = userView u st"
  using assms
  by (cases "x = u";
      auto simp: protectedMember_def handleMember_v1_def Let_def view_defs push_defs
           split: option.splits)

lemma handleMember_v1_roleOps: "roleOps (handleMember_v1 G cfg ts g Q x st) = roleOps st"
  by (auto simp: handleMember_v1_def Let_def split: option.splits)

lemma handleHolders_v1_roleOps: "roleOps (handleHolders_v1 G cfg ts g Q ms st) = roleOps st"
  by (induction ms arbitrary: st) (simp_all add: handleMember_v1_roleOps)

lemma handleHolders_v1_protected:
  assumes "protectedMember cfg g u"
  shows "userView u (handleHolders_v1 G cfg ts g Q ms st) = userView u st"
  by (induction ms arbitrary: st) (simp_all add: handleMember_v1_protected [OF assms])

lemma addOne_roleOps:
  "RoleRemove u \<in> set (roleOps (stateOf (addOne cfg g x st))) \<longleftrightarrow> RoleRemove u \<in> set (roleOps st)"
  by (auto simp: addOne_def stateOf_def Let_def)

lemma addQualified_roleOps:
  "RoleRemove u \<in> set (roleOps (stateOf (addQualified cfg g us st))) \<longleftrightarrow>
   RoleRemove u \<in> set (roleOps st)"
proof (induction us arbitrary: st)
  case Nil
  show ?case by (simp add: stateOf_def)
next
  case (Cons x us)
  show ?case
    using Cons.IH [of "stateOf (addOne cfg g x st)"] addOne_roleOps [of u cfg g x st]
    by (auto simp: stateOf_def split: attempt.splits)
qed

lemma addTop30_v1_roleOps: "roleOps (addTop30_v1 cfg us st) = roleOps st"
  by (induction us arbitrary: st) (simp_all add: addOne_v1_roleOps)

lemma manageRolesG_protected:
  assumes "protectedMember cfg g u"
  shows "untouched u gf (manageRolesG G cfg ts g q gf)"
proof (cases "roles_fetch g (HIERARCH_ROLE_ID cfg)")
  case None
  then show ?thesis by (simp add: manageRolesG_def untouched_def)
next
  case (Some holders)
  define st0 where "st0 = \<lparr> graceTracking = loadGrace gf, log = initialLog ts q, roleOps = [] \<rparr>"
  have o0: "RoleRemove u \<notin> set (roleOps (stateOf (addQualified cfg g (allQualified q) st0)))"
    by (simp add: addQualified_roleOps st0_def)
  show ?thesis
  proof (cases "addQualified cfg g (allQualified q) st0")
    case (Rejected s)
    then show ?thesis using Some o0
      by (simp add: manageRolesG_def Let_def st0_def untouched_def stateOf_def)
  next
    case (Resolved st1)
    define st2 where "st2 = handleHolders G cfg ts g (qualifiedIds q) holders st1"
    have r: "manageRolesG G cfg ts g q gf =
               \<lparr> threw = False, returned = Some (log st2), logFile = Some (log st2),
                 graceFile = Some (graceTracking st2), mutations = roleOps st2 \<rparr>"
      using Some Resolved by (simp add: manageRolesG_def Let_def st0_def st2_def)
    have v: "userView u st2 = userView u st1"
      and o: "RoleRemove u \<in> set (roleOps st2) \<longleftrightarrow> RoleRemove u \<in> set (roleOps st1)"
      unfolding st2_def using handleHolders_protected [OF assms] by simp_all
    have l1: "graceUsersOf u (log st1) = []" "removedOf u (log st1) = []"
      using addQualified_log [of cfg g "allQualified q" st0] Resolved
      by (simp_all add: st0_def stateOf_def initialLog_def view_defs)
    have g1: "graceTracking st1 u = None \<or> graceTracking st1 u = loadGrace gf u"
      using addQualified_grace [OF Resolved, of u] by (simp add: st0_def)
    have o1: "RoleRemove u \<notin> set (roleOps st1)"
      using o0 Resolved by (simp add: stateOf_def)
    from v l1 g1 have "graceUsersOf u (log st2) = []" "removedOf u (log st2) = []"
      "graceTracking st2 u = None \<or> graceTracking st2 u = loadGrace gf u"
      by (auto simp: userView_def)
    then show ?thesis using o o1
      by (simp add: r untouched_def removedOf_empty graceUsersOf_empty loadGrace_def [of "Some x" for x])
  qed
qed

lemma manageRolesG_v1_protected:
  assumes "protectedMember cfg g u"
  shows "untouched u gf (manageRolesG_v1 G cfg ts g t s gf)"
proof (cases "roles_fetch g (HIERARCH_ROLE_ID cfg)")
  case None
  then show ?thesis by (simp add: manageRolesG_v1_def untouched_def)
next
  case (Some holders)
  define st0 where "st0 = \<lparr> graceTracking = loadGrace gf, log = initialLog_v1 ts t s, roleOps = [] \<rparr>"
  define st2 where "st2 = clearGrace_v1 s (addTop30_v1 cfg t st0)"
  define st3 where "st3 = handleHolders_v1 G cfg ts g (activeIds_v1 t s) holders st2"
  have r: "manageRolesG_v1 G cfg ts g t s gf =
             \<lparr> threw = False, returned = None, logFile = Some (log st3),
               graceFile = Some (graceTracking st3), mutations = roleOps st3 \<rparr>"
    using Some by (simp add: manageRolesG_v1_def Let_def st0_def st2_def st3_def)
  have v: "userView u st3 = userView u st2"
    unfolding st3_def using handleHolders_v1_protected [OF assms] by simp
  have o: "roleOps st3 = []"
    by (simp add: st3_def st2_def st0_def handleHolders_v1_roleOps clearGrace_v1_roleOps
        addTop30_v1_roleOps)
  have l1: "graceUsersOf u (log st2) = []" "removedOf u (log st2) = []"
    by (simp_all add: st2_def st0_def clearGrace_v1_log addTop30_v1_log initialLog_v1_def view_defs)
  have g1: "graceTracking st2 u = None \<or> graceTracking st2 u = loadGrace gf u"
    by (simp add: st2_def st0_def clearGrace_v1_grace addTop30_v1_grace)
  from v l1 g1 have "graceUsersOf u (log st3) = []" "removedOf u (log st3) = []"
    "graceTracking st3 u = None \<or> graceTracking st3 u = loadGrace gf u"
    by (auto simp: userView_def)
  then show ?thesis using o
    by (simp add: r untouched_def removedOf_empty graceUsersOf_empty loadGrace_def [of "Some x" for x])
qed

lemma untouched_trans:
  assumes "loadGrace gf1 u = None \<or> loadGrace gf1 u = loadGrace gf u" "untouched u gf1 r"
  shows "untouched u gf r"
  using assms by (auto simp: untouched_def)

lemma consecutiveRuns_protected:
  assumes "\<forall>(ts, g, q) \<in> set runs. protectedMember cfg g u"
    and "loadGrace gf1 u = None \<or> loadGrace gf1 u = loadGrace gf u"
    and "r \<in> set (consecutiveRuns G cfg runs gf1)"
  shows "untouched u gf r"
  using assms
proof (induction runs arbitrary: gf1)
  case Nil
  then show ?case by simp
next
  case (Cons x runs)
  obtain ts g q where x: "x = (ts, g, q)" by (cases x)
  let ?r1 = "manageRolesG G cfg ts g q gf1"
  have p: "protectedMember cfg g u" using Cons.prems(1) by (simp add: x)
  have u1: "untouched u gf1 ?r1" using p by (rule manageRolesG_protected)
  then have u1': "untouched u gf ?r1" using Cons.prems(2) untouched_trans by blast
  then have g1: "loadGrace (graceFile ?r1) u = None \<or> loadGrace (graceFile ?r1) u = loadGrace gf u"
    by (simp add: untouched_def)
  from Cons.prems(3) have "r = ?r1 \<or> r \<in> set (consecutiveRuns G cfg runs (graceFile ?r1))"
    by (simp add: x Let_def)
  then show ?case
  proof
    assume "r = ?r1" then show ?thesis using u1' by simp
  next
    assume "r \<in> set (consecutiveRuns G cfg runs (graceFile ?r1))"
    then show ?thesis using Cons.IH [OF _ g1] Cons.prems(1) by simp
  qed
qed

lemma consecutiveRuns_v1_protected:
  assumes "\<forall>(ts, g, t, s) \<in> set runs. protectedMember cfg g u"
    and "loadGrace gf1 u = None \<or> loadGrace gf1 u = loadGrace gf u"
    and "r \<in> set (consecutiveRuns_v1 G cfg runs gf1)"
  shows "untouched u gf r"
  using assms
proof (induction runs arbitrary: gf1)
  case Nil
  then show ?case by simp
next
  case (Cons x runs)
  obtain ts g t s where x: "x = (ts, g, t, s)" by (cases x)
  let ?r1 = "manageRolesG_v1 G cfg ts g t s gf1"
  have p: "protectedMember cfg g u" using Cons.prems(1) by (simp add: x)
  have u1: "untouched u gf1 ?r1" using p by (rule manageRolesG_v1_protected)
  then have u1': "untouched u gf ?r1" using Cons.prems(2) untouched_trans by blast
  then have g1: "loadGrace (graceFile ?r1) u = None \<or> loadGrace (graceFile ?r1) u = loadGrace gf u"
    by (simp add: untouched_def)
  from Cons.prems(3) have "r = ?r1 \<or> r \<in> set (consecutiveRuns_v1 G cfg runs (graceFile ?r1))"
    by (simp add: x Let_def)
  then show ?case
  proof
    assume "r = ?r1" then show ?thesis using u1' by simp
  next
    assume "r \<in> set (consecutiveRuns_v1 G cfg runs (graceFile ?r1))"
    then show ?thesis using Cons.IH [OF _ g1] Cons.prems(1) by simp
  qed
qed

lemma handleMember_removed_nograce:
  assumes "G \<le> 0"
  shows "\<exists>rs. \<forall>ts st. rolesRemoved (log (handleMember G cfg ts g Q m st)) = rolesRemoved (log st) @ rs"
proof (cases "m \<in> Q")
  case True
  then show ?thesis by (simp add: handleMember_def)
next
  case nq: False
  show ?thesis
  proof (cases "members_fetch g m")
    case None
    then show ?thesis by (simp add: handleMember_def)
  next
    case (Some mem)
    show ?thesis
    proof (cases "hasRoleIn (PROTECTED_ROLES_IDS cfg) mem")
      case True
      then show ?thesis using Some by (simp add: handleMember_def)
    next
      case False
      then show ?thesis using Some nq assms
        by (cases "roles_remove g m") (simp_all add: handleMember_def Let_def pushRemoved_def)
    qed
  qed
qed

lemma handleHolders_removed_nograce:
  assumes "G \<le> 0"
  shows "\<exists>rs. \<forall>ts st. rolesRemoved (log (handleHolders G cfg ts g Q ms st)) = rolesRemoved (log st) @ rs"
proof (induction ms)
  case Nil
  then show ?case by simp
next
  case (Cons m ms)
  from handleMember_removed_nograce [OF assms, of cfg g Q m] obtain r1 where
    r1: "\<And>ts st. rolesRemoved (log (handleMember G cfg ts g Q m st)) = rolesRemoved (log st) @ r1"
    by blast
  from Cons.IH obtain r2 where
    r2: "\<And>ts st. rolesRemoved (log (handleHolders G cfg ts g Q ms st)) = rolesRemoved (log st) @ r2"
    by blast
  have "\<forall>ts st. rolesRemoved (log (handleHolders G cfg ts g Q (m # ms) st)) = rolesRemoved (log st) @ (r1 @ r2)"
    by (simp add: r1 r2)
  then show ?case by blast
qed

lemma manageRolesG_added_any_store:
  "map_option rolesAdded (logFile (manageRolesG G cfg ts g q gf)) =
   map_option rolesAdded (logFile (manageRolesG G cfg ts' g q gf'))"
proof (cases "roles_fetch g (HIERARCH_ROLE_ID cfg)")
  case None
  then show ?thesis by (simp add: manageRolesG_def)
next
  case (Some holders)
  define st0 where "st0 = \<lparr> graceTracking = loadGrace gf, log = initialLog ts q, roleOps = [] \<rparr>"
  define st0' where "st0' = \<lparr> graceTracking = loadGrace gf', log = initialLog ts' q, roleOps = [] \<rparr>"
  show ?thesis
  proof (cases "grantsResolve cfg g (allQualified q)")
    case True
    then obtain s s' where s: "addQualified cfg g (allQualified q) st0 = Resolved s"
      and s': "addQualified cfg g (allQualified q) st0' = Resolved s'"
      using addQualified_resolved [of cfg g "allQualified q"] by blast
    show ?thesis using Some s s' addQualified_added [OF s] addQualified_added [OF s']
      by (simp add: manageRolesG_def Let_def st0_def [symmetric] st0'_def [symmetric]
          handleHolders_added)
         (simp add: st0_def st0'_def initialLog_def)
  next
    case False
    then obtain s s' where s: "addQualified cfg g (allQualified q) st0 = Rejected s"
      and s': "addQualified cfg g (allQualified q) st0' = Rejected s'"
      using addQualified_resolved [of cfg g "allQualified q"] by (metis attempt.exhaust)
    show ?thesis using Some s s'
      by (simp add: manageRolesG_def Let_def st0_def [symmetric] st0'_def [symmetric])
  qed
qed

lemma manageRolesG_removed_nograce:
  assumes "G \<le> 0"
  shows "map_option rolesRemoved (logFile (manageRolesG G cfg ts g q gf)) =
   map_option rolesRemoved (logFile (manageRolesG G cfg ts' g q gf'))"
proof (cases "roles_fetch g (HIERARCH_ROLE_ID cfg)")
  case None
  then show ?thesis by (simp add: manageRolesG_def)
next
  case (Some holders)
  from handleHolders_removed_nograce [OF assms, of cfg g "qualifiedIds q" holders] obtain rs where
    rs: "\<And>ts st. rolesRemoved (log (handleHolders G cfg ts g (qualifiedIds q) holders st)) = rolesRemoved (log st) @ rs"
    by blast
  define st0 where "st0 = \<lparr> graceTracking = loadGrace gf, log = initialLog ts q, roleOps = [] \<rparr>"
  define st0' where "st0' = \<lparr> graceTracking = loadGrace gf', log = initialLog ts' q, roleOps = [] \<rparr>"
  have l: "rolesRemoved (log (stateOf (addQualified cfg g (allQualified q) st0))) = []"
       "rolesRemoved (log (stateOf (addQualified cfg g (allQualified q) st0'))) = []"
    by (simp_all add: addQualified_log st0_def st0'_def initialLog_def)
  show ?thesis
  proof (cases "grantsResolve cfg g (allQualified q)")
    case True
    then obtain s s' where s: "addQualified cfg g (allQualified q) st0 = Resolved s"
      and s': "addQualified cfg g (allQualified q) st0' = Resolved s'"
      using addQualified_resolved [of cfg g "allQualified q"] by blast
    show ?thesis using Some s s' l
      by (simp add: manageRolesG_def Let_def st0_def [symmetric] st0'_def [symmetric] rs stateOf_def)
  next
    case False
    then obtain s s' where s: "addQualified cfg g (allQualified q) st0 = Rejected s"
      and s': "addQualified cfg g (allQualified q) st0' = Rejected s'"
      using addQualified_resolved [of cfg g "allQualified q"] by (metis attempt.exhaust)
    show ?thesis using Some s s'
      by (simp add: manageRolesG_def Let_def st0_def [symmetric] st0'_def [symmetric])
  qed
qed

lemmas sample_defs = sampleConfig_def sampleGuild_def
    sampleQualified_def determineQualified_def TOP_COUNT_def ann_def bob_def sam_def sue_def
    annM_def bobM_def samM_def sueM_def patM_def danM_def
lemmas run_defs = manageRoles_def manageRolesG_def GRACE_PERIOD_WEEKS_def allQualified_def qualifiedIds_def
    initialLog_def loadGrace_def addOne_def handleMember_def hasRoleIn_def Let_def push_defs ids_defs
    toMentionEntry_def toRankedEntries_def

section \<open>Grace expiry (C1)\<close>

lemma three_runs:
  assumes "loadGrace gf u = None"
    and "disqualifiedHolder cfg g1 (qualifiedIds q1) u m1" "grantsResolve cfg g1 (allQualified q1)"
    and "disqualifiedHolder cfg g2 (qualifiedIds q2) u m2" "grantsResolve cfg g2 (allQualified q2)"
    and "disqualifiedHolder cfg g3 (qualifiedIds q3) u m3" "grantsResolve cfg g3 (allQualified q3)"
    and "roles_remove g3 u"
  shows "map (decisionsFor u)
           (consecutiveRuns 2 cfg [(ts1, g1, q1), (ts2, g2, q2), (ts3, g3, q3)] gf) =
         expiryTrace u m1 m2 m3 ts1"
proof -
  have G: "0 < (2::int)" by simp
  let ?r1 = "manageRolesG 2 cfg ts1 g1 q1 gf"
  let ?r2 = "manageRolesG 2 cfg ts2 g2 q2 (graceFile ?r1)"
  let ?r3 = "manageRolesG 2 cfg ts3 g3 q3 (graceFile ?r2)"
  have d1: "decisionsFor u ?r1 = graceTransition_spec 2 ts1 u m1 None"
    using manageRolesG_decisions_noexpiry [OF assms(2,3) G, of gf ts1] assms(1) by simp
  then have s1: "loadGrace (graceFile ?r1) u =
      Some \<lparr> g_username = displayName m1, weeksOut = 1, firstWeekOut = ts1 \<rparr>"
    by (simp add: decisionsFor_def graceTransition_spec_def split: option.splits)
  have d2: "decisionsFor u ?r2 = graceTransition_spec 2 ts2 u m2
       (Some \<lparr> g_username = displayName m1, weeksOut = 1, firstWeekOut = ts1 \<rparr>)"
    using manageRolesG_decisions_noexpiry [OF assms(4,5) G, of "graceFile ?r1" ts2] s1 by simp
  then have s2: "loadGrace (graceFile ?r2) u =
      Some \<lparr> g_username = displayName m1, weeksOut = 2, firstWeekOut = ts1 \<rparr>"
    by (simp add: decisionsFor_def graceTransition_spec_def split: option.splits)
  have d3: "decisionsFor u ?r3 = graceTransition_spec 2 ts3 u m3
       (Some \<lparr> g_username = displayName m1, weeksOut = 2, firstWeekOut = ts1 \<rparr>)"
    using manageRolesG_decisions [OF assms(6,7,8)] s2 by simp
  show ?thesis
    by (simp add: Let_def d1 d2 d3 graceTransition_spec_def expiryTrace_def)
qed

lemma three_runs_v1:
  assumes "loadGrace gf u = None"
    and "disqualifiedHolder cfg g1 (activeIds_v1 t1 s1) u m1"
    and "disqualifiedHolder cfg g2 (activeIds_v1 t2 s2) u m2"
    and "disqualifiedHolder cfg g3 (activeIds_v1 t3 s3) u m3"
  shows "map (decisionsFor u)
           (consecutiveRuns_v1 2 cfg [(ts1, g1, t1, s1), (ts2, g2, t2, s2), (ts3, g3, t3, s3)] gf) =
         expiryTrace u m1 m2 m3 ts1"
proof -
  have G: "0 < (2::int)" by simp
  let ?r1 = "manageRolesG_v1 2 cfg ts1 g1 t1 s1 gf"
  let ?r2 = "manageRolesG_v1 2 cfg ts2 g2 t2 s2 (graceFile ?r1)"
  let ?r3 = "manageRolesG_v1 2 cfg ts3 g3 t3 s3 (graceFile ?r2)"
  have d1: "decisionsFor u ?r1 = graceTransition_spec 2 ts1 u m1 None"
    using manageRolesG_v1_decisions [OF assms(2) G] assms(1) by simp
  then have s1: "loadGrace (graceFile ?r1) u =
      Some \<lparr> g_username = displayName m1, weeksOut = 1, firstWeekOut = ts1 \<rparr>"
    by (simp add: decisionsFor_def graceTransition_spec_def split: option.splits)
  have d2: "decisionsFor u ?r2 = graceTransition_spec 2 ts2 u m2
       (Some \<lparr> g_username = displayName m1, weeksOut = 1, firstWeekOut = ts1 \<rparr>)"
    using manageRolesG_v1_decisions [OF assms(3) G] s1 by simp
  then have s2: "loadGrace (graceFile ?r2) u =
      Some \<lparr> g_username = displayName m1, weeksOut = 2, firstWeekOut = ts1 \<rparr>"
    by (simp add: decisionsFor_def graceTransition_spec_def split: option.splits)
  have d3: "decisionsFor u ?r3 = graceTransition_spec 2 ts3 u m3
       (Some \<lparr> g_username = displayName m1, weeksOut = 2, firstWeekOut = ts1 \<rparr>)"
    using manageRolesG_v1_decisions [OF assms(4) G] s2 by simp
  show ?thesis
    by (simp add: Let_def d1 d2 d3 graceTransition_spec_def expiryTrace_def)
qed

lemma dan_disqualified:
  "disqualifiedHolder sampleConfig sampleGuild (qualifiedIds sampleQualified) ''6'' danM"
  "disqualifiedHolder sampleConfig sampleGuild (activeIds_v1 [ann, bob] [sam, sue]) ''6'' danM"
  "disqualifiedHolder sampleConfig guildRemoveRejects (qualifiedIds sampleQualified) ''6'' danM"
  by (simp_all add: disqualifiedHolder_def qualifiedIds_def activeIds_v1_def hasRoleIn_def
      guildRemoveRejects_def sample_defs)

lemma sample_grants_resolve:
  "grantsResolve sampleConfig sampleGuild (allQualified sampleQualified)"
  "grantsResolve sampleConfig guildRemoveRejects (allQualified sampleQualified)"
  "\<not> grantsResolve sampleConfig guildAddRejects (allQualified sampleQualified)"
  by (simp_all add: grantsResolve_def allQualified_def guildRemoveRejects_def guildAddRejects_def
      sample_defs)

text \<open>
  C1: a user who holds the role, is disqualified in three consecutive runs and has no
  grace record before the first of them. With the grace period 2 (the constant of the
  current version; the earlier version is run with the same value) the first run starts
  grace with \<open>weeksOut = 1\<close>, the second continues it with \<open>weeksOut = 2\<close>, and the
  third yields exactly one removal entry for the user, with the reason the source
  writes as "Grace period expired", and deletes the user's grace record. In the current
  version each of the three runs has to reach the user (no \<open>roles.add\<close> of the run
  rejects) and the \<open>roles.remove\<close> of the third run has to resolve; the earlier
  version makes no such call.
\<close>

theorem grace_expires_on_third_disqualified_run:
  assumes "loadGrace gf u = None"
  shows "(disqualifiedHolder cfg g1 (qualifiedIds q1) u m1 \<and>
          disqualifiedHolder cfg g2 (qualifiedIds q2) u m2 \<and>
          disqualifiedHolder cfg g3 (qualifiedIds q3) u m3 \<and>
          grantsResolve cfg g1 (allQualified q1) \<and>
          grantsResolve cfg g2 (allQualified q2) \<and>
          grantsResolve cfg g3 (allQualified q3) \<and>
          roles_remove g3 u \<longrightarrow>
            map (decisionsFor u)
              (consecutiveRuns GRACE_PERIOD_WEEKS cfg
                 [(ts1, g1, q1), (ts2, g2, q2), (ts3, g3, q3)] gf) =
            expiryTrace u m1 m2 m3 ts1)
       \<and> (disqualifiedHolder cfg g1 (activeIds_v1 t1 s1) u m1 \<and>
          disqualifiedHolder cfg g2 (activeIds_v1 t2 s2) u m2 \<and>
          disqualifiedHolder cfg g3 (activeIds_v1 t3 s3) u m3 \<longrightarrow>
            map (decisionsFor u)
              (consecutiveRuns_v1 2 cfg
                 [(ts1, g1, t1, s1), (ts2, g2, t2, s2), (ts3, g3, t3, s3)] gf) =
            expiryTrace u m1 m2 m3 ts1)"
  using three_runs [OF assms] three_runs_v1 [OF assms]
  by (simp add: GRACE_PERIOD_WEEKS_def)

theorem grace_expires_on_third_disqualified_run_witness:
  "loadGrace None ''6'' = None
   \<and> disqualifiedHolder sampleConfig sampleGuild (qualifiedIds sampleQualified) ''6'' danM
   \<and> grantsResolve sampleConfig sampleGuild (allQualified sampleQualified)
   \<and> roles_remove sampleGuild ''6''
   \<and> disqualifiedHolder sampleConfig sampleGuild (activeIds_v1 [ann, bob] [sam, sue]) ''6'' danM
   \<and> map (decisionsFor ''6'')
        (consecutiveRuns GRACE_PERIOD_WEEKS sampleConfig
           [(''t1'', sampleGuild, sampleQualified), (''t2'', sampleGuild, sampleQualified),
            (''t3'', sampleGuild, sampleQualified)] None) =
      expiryTrace ''6'' danM danM danM ''t1''
   \<and> map (decisionsFor ''6'')
        (consecutiveRuns_v1 2 sampleConfig
           [(''t1'', sampleGuild, [ann, bob], [sam, sue]), (''t2'', sampleGuild, [ann, bob], [sam, sue]),
            (''t3'', sampleGuild, [ann, bob], [sam, sue])] None) =
      expiryTrace ''6'' danM danM danM ''t1''"
proof -
  have n: "loadGrace None ''6'' = None" by (simp add: loadGrace_def)
  from grace_expires_on_third_disqualified_run
         [OF n, of sampleConfig sampleGuild sampleQualified danM sampleGuild sampleQualified danM
            sampleGuild sampleQualified danM "''t1''" "''t2''" "''t3''"
            "[ann, bob]" "[sam, sue]" "[ann, bob]" "[sam, sue]" "[ann, bob]" "[sam, sue]"]
  show ?thesis using n dan_disqualified(1,2) sample_grants_resolve(1)
    by (simp add: sampleGuild_def)
qed

section \<open>Protected exemption (C4)\<close>

text \<open>
  C4: a user with a protected role, whatever the mentions, in any sequence of runs from
  any grace file: no run puts the user in \<open>rolesRemoved\<close> or in \<open>graceUsers\<close>, none
  calls \<open>roles.remove\<close> for the user, and the user's grace record is never created or
  advanced (a record that predates the runs stays as it was, or is deleted when the
  user qualifies). Both versions.
\<close>

theorem protected_never_removed_nor_tracked:
  "((\<forall>(ts, g, q) \<in> set runs. protectedMember cfg g u) \<longrightarrow>
      (\<forall>r \<in> set (consecutiveRuns G cfg runs gf). untouched u gf r))
   \<and> ((\<forall>(ts, g, top30Reg, special) \<in> set runs_v1. protectedMember cfg g u) \<longrightarrow>
      (\<forall>r \<in> set (consecutiveRuns_v1 G cfg runs_v1 gf). untouched u gf r))"
  using consecutiveRuns_protected [of runs cfg u gf gf _ G]
        consecutiveRuns_v1_protected [of runs_v1 cfg u gf gf _ G]
  by blast

theorem protected_never_removed_nor_tracked_witness:
  "protectedMember sampleConfig sampleGuild ''5''
   \<and> ''5'' \<notin> qualifiedIds sampleQualified
   \<and> length (consecutiveRuns 2 sampleConfig [sampleRun, sampleRun, sampleRun, sampleRun] None) = 4
   \<and> list_all (untouched ''5'' None)
       (consecutiveRuns 2 sampleConfig [sampleRun, sampleRun, sampleRun, sampleRun] None)
   \<and> list_all (untouched ''5'' None)
       (consecutiveRuns_v1 4 sampleConfig [sampleRun_v1, sampleRun_v1, sampleRun_v1] None)"
proof -
  have p: "protectedMember sampleConfig sampleGuild ''5''"
    by (simp add: protectedMember_def hasRoleIn_def sample_defs)
  have q: "''5'' \<notin> qualifiedIds sampleQualified"
    by (simp add: qualifiedIds_def sample_defs)
  have a: "list_all (untouched ''5'' None)
       (consecutiveRuns 2 sampleConfig [sampleRun, sampleRun, sampleRun, sampleRun] None)"
    using protected_never_removed_nor_tracked
            [of "[sampleRun, sampleRun, sampleRun, sampleRun]" sampleConfig "''5''" 2 None] p
    by (simp add: list_all_iff sampleRun_def)
  have b: "list_all (untouched ''5'' None)
       (consecutiveRuns_v1 4 sampleConfig [sampleRun_v1, sampleRun_v1, sampleRun_v1] None)"
    using protected_never_removed_nor_tracked
            [of _ sampleConfig "''5''" _ _ "[sampleRun_v1, sampleRun_v1, sampleRun_v1]"] p
    by (simp add: list_all_iff sampleRun_v1_def)
  show ?thesis using p q a b by (simp add: sampleRun_def Let_def)
qed

section \<open>The added list (C5)\<close>

lemma sample_run_log:
  "\<exists>l. logFile (manageRolesG G sampleConfig ts sampleGuild sampleQualified gf) = Some l"
  "\<exists>l. logFile (manageRolesG_v1 G sampleConfig ts sampleGuild t s gf) = Some l"
proof -
  have r: "roles_fetch sampleGuild (HIERARCH_ROLE_ID sampleConfig) \<noteq> None"
    by (simp add: sampleConfig_def sampleGuild_def)
  have "logFile (manageRolesG G sampleConfig ts sampleGuild sampleQualified gf) \<noteq> None"
    using manageRolesG_written(1) [of G sampleConfig ts sampleGuild sampleQualified gf]
          r sample_grants_resolve(1)
    by blast
  then show "\<exists>l. logFile (manageRolesG G sampleConfig ts sampleGuild sampleQualified gf) = Some l"
    by blast
  show "\<exists>l. logFile (manageRolesG_v1 G sampleConfig ts sampleGuild t s gf) = Some l"
    by (simp add: manageRolesG_v1_def Let_def sampleConfig_def sampleGuild_def)
qed

lemma sample_run_v1_added:
  "map_option (map me_userId \<circ> rolesAdded)
     (logFile (manageRolesG_v1 GRACE_PERIOD_WEEKS_v1 sampleConfig ''t'' sampleGuild
                 [ann, bob] [sam, sue] None)) =
   Some [''1'']"
  by (simp add: manageRolesG_v1_def GRACE_PERIOD_WEEKS_v1_def addOne_v1_def handleMember_v1_def
      activeIds_v1_def initialLog_v1_def run_defs sample_defs)

text \<open>
  C5, as stated: the added list holds every user of the qualified union who lacks the
  role. It fails in the earlier version (\<open>role-manager.js\<close>), whose union of users
  kept from removal is the top regular members with the active special members: Sam is
  an active special member without the role, and the added list names Ann only.
\<close>

theorem added_list_v1_counterexample:
  "userId sam \<in> activeIds_v1 [ann, bob] [sam, sue]
   \<and> HIERARCH_ROLE_ID sampleConfig \<notin> set (roleIds (member sam))
   \<and> userId sam \<notin> set [userId ann]
   \<and> map_option (map me_userId \<circ> rolesAdded)
       (logFile (manageRolesG_v1 GRACE_PERIOD_WEEKS_v1 sampleConfig ''t'' sampleGuild
                   [ann, bob] [sam, sue] None)) =
     Some [userId ann]"
proof -
  have a: "userId sam \<in> activeIds_v1 [ann, bob] [sam, sue]"
    "HIERARCH_ROLE_ID sampleConfig \<notin> set (roleIds (member sam))"
    "userId sam \<notin> set [userId ann]" "userId ann = ''1''"
    by (simp_all add: activeIds_v1_def sample_defs)
  show ?thesis using a(1,2,3) sample_run_v1_added unfolding a(4) by blast
qed

text \<open>
  C5, amended: in the current version the added list of every run that writes a log
  holds, in the order regular, special, protected, one entry (name, identifier,
  mentions) for each qualified user whose role cache lacks the privileged role, and
  nothing else. In the earlier version the added list holds exactly the top regular
  members that lack the role: an active special member keeps the role and is never
  given it.
\<close>

theorem added_is_qualified_without_role:
  "(\<forall>l. logFile (manageRolesG G cfg ts g q gf) = Some l \<longrightarrow>
       rolesAdded l =
         map (\<lambda>u. \<lparr> me_username = username u, me_userId = userId u, mentions = mentionCount u \<rparr>)
           (filter (\<lambda>u. HIERARCH_ROLE_ID cfg \<notin> set (roleIds (member u)))
              (top30Regular q @ qualifiedSpecial q @ qualifiedProtected q))
       \<and> map me_userId (rolesAdded l) =
           map userId
             (filter (\<lambda>u. HIERARCH_ROLE_ID cfg \<notin> set (roleIds (member u)))
                (top30Regular q @ qualifiedSpecial q @ qualifiedProtected q)))
   \<and> (\<forall>l. logFile (manageRolesG_v1 G cfg ts g top30Reg special gf) = Some l \<longrightarrow>
       rolesAdded l =
         map (\<lambda>u. \<lparr> me_username = username u, me_userId = userId u, mentions = mentionCount u \<rparr>)
           (filter (\<lambda>u. HIERARCH_ROLE_ID cfg \<notin> set (roleIds (member u))) top30Reg)
       \<and> map me_userId (rolesAdded l) =
           map userId (filter (\<lambda>u. HIERARCH_ROLE_ID cfg \<notin> set (roleIds (member u))) top30Reg))"
proof (intro conjI allI impI)
  fix l assume l: "logFile (manageRolesG G cfg ts g q gf) = Some l"
  define st0 where "st0 = \<lparr> graceTracking = loadGrace gf, log = initialLog ts q, roleOps = [] \<rparr>"
  from l obtain holders st1 where st1: "addQualified cfg g (allQualified q) st0 = Resolved st1"
    and leq: "l = log (handleHolders G cfg ts g (qualifiedIds q) holders st1)"
    by (auto simp: manageRolesG_def Let_def st0_def split: option.splits attempt.splits)
  have "rolesAdded l = map toMentionEntry
          (filter (\<lambda>u. HIERARCH_ROLE_ID cfg \<notin> set (roleIds (member u))) (allQualified q))"
    unfolding leq using addQualified_added [OF st1]
    by (simp add: handleHolders_added st0_def initialLog_def)
  then show e: "rolesAdded l =
         map (\<lambda>u. \<lparr> me_username = username u, me_userId = userId u, mentions = mentionCount u \<rparr>)
           (filter (\<lambda>u. HIERARCH_ROLE_ID cfg \<notin> set (roleIds (member u)))
              (top30Regular q @ qualifiedSpecial q @ qualifiedProtected q))"
    by (simp add: allQualified_def toMentionEntry_def [abs_def])
  show "map me_userId (rolesAdded l) =
           map userId
             (filter (\<lambda>u. HIERARCH_ROLE_ID cfg \<notin> set (roleIds (member u)))
                (top30Regular q @ qualifiedSpecial q @ qualifiedProtected q))"
    unfolding e by (simp add: comp_def)
next
  fix l assume l: "logFile (manageRolesG_v1 G cfg ts g top30Reg special gf) = Some l"
  then have "rolesAdded l = map toMentionEntry
          (filter (\<lambda>u. HIERARCH_ROLE_ID cfg \<notin> set (roleIds (member u))) top30Reg)"
    by (auto simp: manageRolesG_v1_def Let_def handleHolders_v1_added addTop30_v1_log
        clearGrace_v1_log initialLog_v1_def split: option.splits)
  then show e: "rolesAdded l =
         map (\<lambda>u. \<lparr> me_username = username u, me_userId = userId u, mentions = mentionCount u \<rparr>)
           (filter (\<lambda>u. HIERARCH_ROLE_ID cfg \<notin> set (roleIds (member u))) top30Reg)"
    by (simp add: toMentionEntry_def [abs_def])
  show "map me_userId (rolesAdded l) =
           map userId (filter (\<lambda>u. HIERARCH_ROLE_ID cfg \<notin> set (roleIds (member u))) top30Reg)"
    unfolding e by (simp add: comp_def)
qed

theorem added_is_qualified_without_role_witness:
  "map_option rolesAdded (logFile (manageRolesG 2 sampleConfig ''t'' sampleGuild sampleQualified None))
     = Some [\<lparr> me_username = ''Ann'', me_userId = ''1'', mentions = 50 \<rparr>,
             \<lparr> me_username = ''Sam'', me_userId = ''3'', mentions = 41 \<rparr>]
   \<and> map_option (map me_userId \<circ> rolesAdded)
        (logFile (manageRolesG 2 sampleConfig ''t'' sampleGuild sampleQualified None))
     = Some [''1'', ''3'']
   \<and> map_option (map me_userId \<circ> rolesAdded)
        (logFile (manageRolesG_v1 2 sampleConfig ''t'' sampleGuild [ann, bob] [sam, sue] None))
     = Some [''1'']"
proof -
  obtain l where l: "logFile (manageRolesG 2 sampleConfig ''t'' sampleGuild sampleQualified None) = Some l"
    using sample_run_log(1) by blast
  obtain l' where l': "logFile (manageRolesG_v1 2 sampleConfig ''t'' sampleGuild [ann, bob] [sam, sue] None) = Some l'"
    using sample_run_log(2) by blast
  note t = added_is_qualified_without_role
         [where G = 2 and cfg = sampleConfig and ts = "''t''" and g = sampleGuild
            and q = sampleQualified and gf = None and ?top30Reg = "[ann, bob]"
            and special = "[sam, sue]"]
  from t l have a: "rolesAdded l =
         map (\<lambda>u. \<lparr> me_username = username u, me_userId = userId u, mentions = mentionCount u \<rparr>)
           (filter (\<lambda>u. HIERARCH_ROLE_ID sampleConfig \<notin> set (roleIds (member u)))
              (top30Regular sampleQualified @ qualifiedSpecial sampleQualified
                 @ qualifiedProtected sampleQualified))"
    by blast
  from t l' have b: "map me_userId (rolesAdded l') =
         map userId (filter (\<lambda>u. HIERARCH_ROLE_ID sampleConfig \<notin> set (roleIds (member u)))
           [ann, bob])"
    by blast
  have a': "rolesAdded l = [\<lparr> me_username = ''Ann'', me_userId = ''1'', mentions = 50 \<rparr>,
             \<lparr> me_username = ''Sam'', me_userId = ''3'', mentions = 41 \<rparr>]"
    unfolding a by (simp add: sample_defs)
  have b': "map me_userId (rolesAdded l') = [''1'']"
    unfolding b by (simp add: sample_defs)
  show ?thesis using l l' a' b' by simp
qed

section \<open>Qualification clears grace (C6)\<close>

lemma ghost_record_stays:
  "loadGrace (graceFile (manageRoles sampleConfig ''t'' guildWithoutRole sampleQualified
                           (Some samStore))) ''3'' =
     Some \<lparr> g_username = ''Sam'', weeksOut = 2, firstWeekOut = ''t'' \<rparr>"
  by (simp add: manageRoles_def manageRolesG_def guildWithoutRole_def loadGrace_def samStore_def)

text \<open>
  C6, as stated: after any run no user of the qualified sets of that run is in the
  grace store. It fails for the run that does not find the privileged role: the run
  returns before the loop that clears grace, and the record of the qualified user Sam
  stays in the store.
\<close>

theorem qualified_user_keeps_record_counterexample:
  "''3'' \<in> qualifiedIds sampleQualified
   \<and> roles_fetch guildWithoutRole (HIERARCH_ROLE_ID sampleConfig) = None
   \<and> loadGrace (graceFile (manageRoles sampleConfig ''t'' guildWithoutRole sampleQualified
                              (Some samStore))) ''3'' =
     Some \<lparr> g_username = ''Sam'', weeksOut = 2, firstWeekOut = ''t'' \<rparr>"
  using ghost_record_stays
  by (simp add: qualifiedIds_def guildWithoutRole_def sample_defs)

text \<open>
  C6, amended: a run that finds the privileged role and in which no \<open>roles.add\<close>
  rejects writes the grace file, and the file then holds no record for any user of the
  qualified sets of that run, whatever it held before; any other run leaves the grace
  file as it was. In the earlier version, which makes no role call, every run that
  finds the role writes a file without a record for any top regular or active special
  member.
\<close>

theorem qualified_users_have_no_grace_record:
  "(roles_fetch g (HIERARCH_ROLE_ID cfg) \<noteq> None \<and> grantsResolve cfg g (allQualified q) \<longrightarrow>
      logFile (manageRolesG G cfg ts g q gf) \<noteq> None \<and>
      (\<forall>u \<in> qualifiedIds q. loadGrace (graceFile (manageRolesG G cfg ts g q gf)) u = None))
   \<and> (\<not> (roles_fetch g (HIERARCH_ROLE_ID cfg) \<noteq> None \<and> grantsResolve cfg g (allQualified q)) \<longrightarrow>
      logFile (manageRolesG G cfg ts g q gf) = None \<and>
      graceFile (manageRolesG G cfg ts g q gf) = gf)
   \<and> (roles_fetch g (HIERARCH_ROLE_ID cfg) \<noteq> None \<longrightarrow>
      logFile (manageRolesG_v1 G cfg ts g top30Reg special gf) \<noteq> None \<and>
      (\<forall>u \<in> activeIds_v1 top30Reg special.
          loadGrace (graceFile (manageRolesG_v1 G cfg ts g top30Reg special gf)) u = None))"
proof (intro conjI impI ballI)
  assume h: "roles_fetch g (HIERARCH_ROLE_ID cfg) \<noteq> None \<and> grantsResolve cfg g (allQualified q)"
  then show w: "logFile (manageRolesG G cfg ts g q gf) \<noteq> None"
    using manageRolesG_written(1) [of G cfg ts g q gf] by blast
  fix u assume "u \<in> qualifiedIds q"
  with w show "loadGrace (graceFile (manageRolesG G cfg ts g q gf)) u = None"
    by (rule manageRolesG_qualified_cleared)
next
  assume h: "\<not> (roles_fetch g (HIERARCH_ROLE_ID cfg) \<noteq> None \<and> grantsResolve cfg g (allQualified q))"
  then show "logFile (manageRolesG G cfg ts g q gf) = None"
    using manageRolesG_written(1) [of G cfg ts g q gf] by blast
  from h show "graceFile (manageRolesG G cfg ts g q gf) = gf"
    by (rule manageRolesG_written(2))
next
  assume h: "roles_fetch g (HIERARCH_ROLE_ID cfg) \<noteq> None"
  then show w: "logFile (manageRolesG_v1 G cfg ts g top30Reg special gf) \<noteq> None"
    by (auto simp: manageRolesG_v1_def Let_def)
  fix u assume "u \<in> activeIds_v1 top30Reg special"
  with w show "loadGrace (graceFile (manageRolesG_v1 G cfg ts g top30Reg special gf)) u = None"
    by (rule manageRolesG_v1_qualified_cleared)
qed

theorem qualified_users_have_no_grace_record_witness:
  "roles_fetch sampleGuild (HIERARCH_ROLE_ID sampleConfig) \<noteq> None
   \<and> grantsResolve sampleConfig sampleGuild (allQualified sampleQualified)
   \<and> ''3'' \<in> qualifiedIds sampleQualified
   \<and> ''3'' \<in> activeIds_v1 [ann, bob] [sam, sue]
   \<and> loadGrace (Some samStore) ''3'' \<noteq> None
   \<and> loadGrace (graceFile (manageRolesG 2 sampleConfig ''t'' sampleGuild sampleQualified
                              (Some samStore))) ''3'' = None
   \<and> loadGrace (graceFile (manageRolesG_v1 2 sampleConfig ''t'' sampleGuild [ann, bob] [sam, sue]
                              (Some samStore))) ''3'' = None
   \<and> \<not> grantsResolve sampleConfig guildAddRejects (allQualified sampleQualified)
   \<and> graceFile (manageRolesG 2 sampleConfig ''t'' guildAddRejects sampleQualified
                   (Some samStore)) = Some samStore"
proof -
  have h: "roles_fetch sampleGuild (HIERARCH_ROLE_ID sampleConfig) \<noteq> None"
    by (simp add: sampleGuild_def sampleConfig_def)
  have q: "''3'' \<in> qualifiedIds sampleQualified" "''3'' \<in> activeIds_v1 [ann, bob] [sam, sue]"
    by (simp_all add: qualifiedIds_def activeIds_v1_def sample_defs)
  note t = qualified_users_have_no_grace_record
         [where g = sampleGuild and cfg = sampleConfig and q = sampleQualified and G = 2
            and ts = "''t''" and gf = "Some samStore"
            and ?top30Reg = "[ann, bob]" and special = "[sam, sue]"]
  note t' = qualified_users_have_no_grace_record
         [where g = guildAddRejects and cfg = sampleConfig and q = sampleQualified and G = 2
            and ts = "''t''" and gf = "Some samStore"]
  have a: "loadGrace (graceFile (manageRolesG 2 sampleConfig ''t'' sampleGuild sampleQualified
                              (Some samStore))) ''3'' = None"
    using t h q(1) sample_grants_resolve(1) by blast
  have b: "loadGrace (graceFile (manageRolesG_v1 2 sampleConfig ''t'' sampleGuild [ann, bob] [sam, sue]
                              (Some samStore))) ''3'' = None"
    using t h q(2) by blast
  have c: "graceFile (manageRolesG 2 sampleConfig ''t'' guildAddRejects sampleQualified
                   (Some samStore)) = Some samStore"
    using t' sample_grants_resolve(3) by blast
  show ?thesis using h q a b c sample_grants_resolve(1,3)
    by (simp add: loadGrace_def samStore_def)
qed

section \<open>Disjoint decision lists (C7)\<close>

text \<open>
  C7: in the log of one run no user identifier is in two of the lists \<open>rolesAdded\<close>,
  \<open>rolesRemoved\<close>, \<open>graceUsers\<close> and \<open>protectedSkipped\<close>. The members of the role
  are a collection keyed by member identifier, so the loop meets each holder once. The
  list \<open>protectedSkipped\<close> exists in the earlier version only; the current version
  skips a protected holder without recording it.
\<close>

theorem decision_lists_are_disjoint:
  assumes "roles_fetch g (HIERARCH_ROLE_ID cfg) = Some holders" "distinct holders"
  shows "(\<forall>l. logFile (manageRolesG G cfg ts g q gf) = Some l \<longrightarrow> listsDisjoint l)
       \<and> (\<forall>l. logFile (manageRolesG_v1 G cfg ts g top30Reg special gf) = Some l \<longrightarrow>
              listsDisjoint l)"
proof (intro conjI allI impI)
  fix l assume l: "logFile (manageRolesG G cfg ts g q gf) = Some l"
  define st0 where "st0 = \<lparr> graceTracking = loadGrace gf, log = initialLog ts q, roleOps = [] \<rparr>"
  from l assms(1) obtain st1 where st1: "addQualified cfg g (allQualified q) st0 = Resolved st1"
    and leq: "l = log (handleHolders G cfg ts g (qualifiedIds q) holders st1)"
    by (auto simp: manageRolesG_def Let_def st0_def split: attempt.splits)
  have e: "rolesRemoved (log st1) = []" "graceUsers (log st1) = []"
      "protectedSkipped (log st1) = []"
    using addQualified_log [of cfg g "allQualified q" st0] st1
    by (simp_all add: stateOf_def st0_def initialLog_def)
  have d0: "decided {} (log st1)" and o0: "offQualified (qualifiedIds q) (log st1)"
    by (simp_all add: decided_def offQualified_def ids_defs e)
  have d: "decided ({} \<union> set holders) l"
    unfolding leq using d0 assms(2) by (intro handleHolders_decided) auto
  have o: "offQualified (qualifiedIds q) l"
    unfolding leq using o0 by (rule handleHolders_offQualified)
  have "rolesAdded l = map toMentionEntry
          (filter (\<lambda>u. HIERARCH_ROLE_ID cfg \<notin> set (roleIds (member u))) (allQualified q))"
    unfolding leq using addQualified_added [OF st1]
    by (simp add: handleHolders_added st0_def initialLog_def)
  then have a: "set (addedIds l) \<subseteq> qualifiedIds q"
    by (auto simp: addedIds_def toMentionEntry_def qualifiedIds_def allQualified_def)
  from d o a show "listsDisjoint l" by (rule listsDisjointI)
next
  fix l assume l: "logFile (manageRolesG_v1 G cfg ts g top30Reg special gf) = Some l"
  define st0 where "st0 = \<lparr> graceTracking = loadGrace gf,
                  log = initialLog_v1 ts top30Reg special, roleOps = [] \<rparr>"
  define st2 where "st2 = clearGrace_v1 special (addTop30_v1 cfg top30Reg st0)"
  have leq: "l = log (handleHolders_v1 G cfg ts g (activeIds_v1 top30Reg special) holders st2)"
    using l assms(1) by (simp add: manageRolesG_v1_def Let_def st0_def st2_def)
  have e: "rolesRemoved (log st2) = []" "graceUsers (log st2) = []"
      "protectedSkipped (log st2) = []"
    by (simp_all add: st2_def st0_def clearGrace_v1_log addTop30_v1_log initialLog_v1_def)
  have d0: "decided {} (log st2)"
    and o0: "offQualified (activeIds_v1 top30Reg special) (log st2)"
    by (simp_all add: decided_def offQualified_def ids_defs e)
  have d: "decided ({} \<union> set holders) l"
    unfolding leq using d0 assms(2) by (intro handleHolders_v1_decided) auto
  have o: "offQualified (activeIds_v1 top30Reg special) l"
    unfolding leq using o0 by (rule handleHolders_v1_offQualified)
  have "rolesAdded l = map toMentionEntry
          (filter (\<lambda>u. HIERARCH_ROLE_ID cfg \<notin> set (roleIds (member u))) top30Reg)"
    unfolding leq
    by (simp add: handleHolders_v1_added st2_def clearGrace_v1_log addTop30_v1_log st0_def
        initialLog_v1_def)
  then have a: "set (addedIds l) \<subseteq> activeIds_v1 top30Reg special"
    by (auto simp: addedIds_def toMentionEntry_def activeIds_v1_def)
  from d o a show "listsDisjoint l" by (rule listsDisjointI)
qed

theorem decision_lists_are_disjoint_witness:
  "roles_fetch sampleGuild (HIERARCH_ROLE_ID sampleConfig) = Some [''2'', ''5'', ''6'']
   \<and> distinct [''2'', ''5'', ''6'']
   \<and> (case logFile (manageRolesG 2 sampleConfig ''t'' sampleGuild sampleQualified (Some (danStore 2)))
       of None \<Rightarrow> False | Some l \<Rightarrow> listsDisjoint l)
   \<and> (case logFile (manageRolesG_v1 2 sampleConfig ''t'' sampleGuild [ann, bob] [sam, sue]
                       (Some (danStore 2)))
       of None \<Rightarrow> False | Some l \<Rightarrow> listsDisjoint l \<and> skippedIds l = [''5''])"
proof -
  have h: "roles_fetch sampleGuild (HIERARCH_ROLE_ID sampleConfig) = Some [''2'', ''5'', ''6'']"
    by (simp add: sampleGuild_def sampleConfig_def)
  have d: "distinct [''2'', ''5'', ''6'']" by simp
  obtain l where l: "logFile (manageRolesG 2 sampleConfig ''t'' sampleGuild sampleQualified (Some (danStore 2))) = Some l"
    using sample_run_log(1) by blast
  obtain l' where l': "logFile (manageRolesG_v1 2 sampleConfig ''t'' sampleGuild [ann, bob] [sam, sue] (Some (danStore 2))) = Some l'"
    using sample_run_log(2) by blast
  from decision_lists_are_disjoint
         [OF h d, where G = 2 and ts = "''t''" and q = sampleQualified and gf = "Some (danStore 2)"
            and ?top30Reg = "[ann, bob]" and special = "[sam, sue]"]
       l l'
  have a: "listsDisjoint l" "listsDisjoint l'" by blast+
  have s: "map_option skippedIds (logFile (manageRolesG_v1 2 sampleConfig ''t'' sampleGuild
             [ann, bob] [sam, sue] (Some (danStore 2)))) = Some [''5'']"
    by (simp add: manageRolesG_v1_def addOne_v1_def handleMember_v1_def activeIds_v1_def
        initialLog_v1_def run_defs sample_defs danStore_def)
  show ?thesis using h d a l l' s by simp
qed

section \<open>Two runs in succession (C8)\<close>

lemma sample_first_run:
  "graceFile (manageRoles sampleConfig ''t'' sampleGuild sampleQualified None) = Some (danStore 1)"
  by (simp add: run_defs sample_defs danStore_def)

lemma sample_second_run:
  "graceFile (manageRoles sampleConfig ''t'' sampleGuild sampleQualified (Some (danStore 1))) =
     Some (danStore 2)"
  "map_option rolesRemoved
     (logFile (manageRoles sampleConfig ''t'' sampleGuild sampleQualified (Some (danStore 1)))) =
     Some []"
  "map_option rolesAdded
     (logFile (manageRoles sampleConfig ''t'' sampleGuild sampleQualified (Some (danStore 1)))) =
     Some [toMentionEntry ann, toMentionEntry sam]"
  by (simp_all add: run_defs sample_defs danStore_def)

lemma sample_third_run:
  "graceFile (manageRoles sampleConfig ''t'' sampleGuild sampleQualified (Some (danStore 2))) =
     Some Map.empty"
  "map_option rolesRemoved
     (logFile (manageRoles sampleConfig ''t'' sampleGuild sampleQualified (Some (danStore 2)))) =
     Some [\<lparr> rm_username = ''Dan'', rm_userId = ''6'', reason = ''Grace period expired'',
             rm_weeksOut = Some 3 \<rparr>]"
  by (simp_all add: run_defs sample_defs danStore_def)

lemma sample_fourth_run:
  "graceFile (manageRoles sampleConfig ''t'' sampleGuild sampleQualified (Some Map.empty)) =
     Some (danStore 1)"
  by (simp add: run_defs sample_defs danStore_def)

text \<open>
  C8, as stated: two runs in immediate succession, with the same input and role
  possession and the grace file as the first of them left it, give the same removed
  list. It fails in the sample guild: Dan holds the role without qualifying and is in
  his first week of grace (the file a first run from no file leaves). The next run
  removes nobody and advances Dan to week two; the run after it, on unchanged input,
  removes Dan.
\<close>

theorem repeated_run_removed_counterexample:
  "graceFile (manageRoles sampleConfig ''t'' sampleGuild sampleQualified None) = Some (danStore 1)
   \<and> map_option rolesRemoved
       (logFile (manageRoles sampleConfig ''t'' sampleGuild sampleQualified (Some (danStore 1)))) =
     Some []
   \<and> map_option rolesRemoved
       (logFile (manageRoles sampleConfig ''t'' sampleGuild sampleQualified
          (graceFile (manageRoles sampleConfig ''t'' sampleGuild sampleQualified
             (Some (danStore 1)))))) =
     Some [\<lparr> rm_username = ''Dan'', rm_userId = ''6'', reason = ''Grace period expired'',
             rm_weeksOut = Some 3 \<rparr>]"
  by (simp add: sample_first_run sample_second_run sample_third_run)

text \<open>
  C8, amended: the two runs give the same added list, for every grace period; they
  give the same removed list when the grace period is disabled (\<open>G = 0\<close>), where no
  decision reads the grace file. With a grace period each run advances the grace
  counters by one step.
\<close>

theorem repeated_run_same_added:
  "map_option rolesAdded (logFile (manageRolesG G cfg ts g q gf)) =
   map_option rolesAdded
     (logFile (manageRolesG G cfg ts' g q (graceFile (manageRolesG G cfg ts g q gf))))
   \<and> (G \<le> 0 \<longrightarrow>
        map_option rolesRemoved (logFile (manageRolesG G cfg ts g q gf)) =
        map_option rolesRemoved
          (logFile (manageRolesG G cfg ts' g q (graceFile (manageRolesG G cfg ts g q gf)))))"
  using manageRolesG_added_any_store [of G cfg ts g q gf ts']
        manageRolesG_removed_nograce [of G cfg ts g q gf ts']
  by blast

theorem repeated_run_same_added_witness:
  "map_option rolesAdded
     (logFile (manageRolesG 2 sampleConfig ''t2'' sampleGuild sampleQualified
        (graceFile (manageRolesG 2 sampleConfig ''t'' sampleGuild sampleQualified
           (Some (danStore 1)))))) =
     Some [toMentionEntry ann, toMentionEntry sam]
   \<and> (0::int) \<le> 0
   \<and> map_option rolesRemoved
       (logFile (manageRolesG 0 sampleConfig ''t'' sampleGuild sampleQualified None)) =
     Some [\<lparr> rm_username = ''Dan'', rm_userId = ''6'', reason = ''Not qualified'',
             rm_weeksOut = None \<rparr>]
   \<and> map_option rolesRemoved
       (logFile (manageRolesG 0 sampleConfig ''t2'' sampleGuild sampleQualified
          (graceFile (manageRolesG 0 sampleConfig ''t'' sampleGuild sampleQualified None)))) =
     Some [\<lparr> rm_username = ''Dan'', rm_userId = ''6'', reason = ''Not qualified'',
             rm_weeksOut = None \<rparr>]"
proof -
  have a: "map_option rolesAdded
     (logFile (manageRolesG 2 sampleConfig ''t'' sampleGuild sampleQualified (Some (danStore 1)))) =
     Some [toMentionEntry ann, toMentionEntry sam]"
    using sample_second_run(3) by (simp add: manageRoles_def GRACE_PERIOD_WEEKS_def)
  have r: "map_option rolesRemoved
       (logFile (manageRolesG 0 sampleConfig ''t'' sampleGuild sampleQualified None)) =
     Some [\<lparr> rm_username = ''Dan'', rm_userId = ''6'', reason = ''Not qualified'',
             rm_weeksOut = None \<rparr>]"
    by (simp add: run_defs sample_defs)
  from repeated_run_same_added
         [of 2 sampleConfig "''t''" sampleGuild sampleQualified "Some (danStore 1)" "''t2''"]
       repeated_run_same_added
         [of 0 sampleConfig "''t''" sampleGuild sampleQualified None "''t2''"]
       a r
  show ?thesis by simp
qed

section \<open>The privileged role is missing (C9)\<close>

text \<open>
  C9: when \<open>guild.roles.fetch\<close> finds no privileged role, \<open>manageRoles\<close> returns
  before any role mutation and before any write, so the grace file is as it was and no
  log is written. The handler does not look at what \<open>manageRoles\<close> returned: the
  summary is not sent (the error is caught inside \<open>sendSummaryToDiscord\<close>), yet the
  handler prints the success message and exits with code 0.
\<close>

theorem missing_role_still_reports_success:
  assumes "roles_fetch g (HIERARCH_ROLE_ID cfg) = None"
  shows "ready cfg ts (Some g) (Some ms) gf =
     \<lparr> exitCode = 0, successReported = True, summarySent = False,
       run = Some \<lparr> threw = False, returned = None, logFile = None, graceFile = gf,
                    mutations = [] \<rparr> \<rparr>"
  using assms
  by (simp add: ready_def manageRoles_def manageRolesG_def sendSummaryToDiscord_def Let_def
      split: prod.splits)

theorem missing_role_still_reports_success_witness:
  "roles_fetch guildWithoutRole (HIERARCH_ROLE_ID sampleConfig) = None
   \<and> ready sampleConfig ''t'' (Some guildWithoutRole) (Some sampleMentions) (Some (danStore 1)) =
     \<lparr> exitCode = 0, successReported = True, summarySent = False,
       run = Some \<lparr> threw = False, returned = None, logFile = None,
                    graceFile = Some (danStore 1), mutations = [] \<rparr> \<rparr>
   \<and> exitCode (ready sampleConfig ''t'' None (Some sampleMentions) (Some (danStore 1))) = 1
   \<and> exitCode (ready sampleConfig ''t'' (Some sampleGuild) None (Some (danStore 1))) = 1"
proof -
  have h: "roles_fetch guildWithoutRole (HIERARCH_ROLE_ID sampleConfig) = None"
    by (simp add: guildWithoutRole_def)
  from missing_role_still_reports_success
         [OF h, of "''t''" sampleMentions "Some (danStore 1)"] h
  show ?thesis by (simp add: ready_def)
qed

section \<open>Bounds of the grace records (C10)\<close>

text \<open>
  The bound holds where no removal can reject: in the earlier version, whose role calls
  are commented out, and in the current version for guilds in which every
  \<open>roles.remove\<close> resolves (lemmas \<open>consecutiveRuns_v1_graceInv\<close> and
  \<open>consecutiveRuns_graceInv\<close>).
\<close>

lemma danStore_within: "graceInv 2 (loadGrace (Some (danStore 2)))"
  by (simp add: graceInv_def loadGrace_def danStore_def)

text \<open>
  C10: with a grace period \<open>G > 0\<close> every record left in the grace file by a
  completed run should have \<open>weeksOut\<close> between 1 and \<open>G\<close>. The current version
  breaks the bound when \<open>roles.remove\<close> rejects for a holder whose record stands at
  \<open>G\<close>: the record has been incremented in place before the call, the \<open>catch\<close> of
  the loop body swallows the rejection, nothing is deleted, and the run completes and
  writes the record with \<open>weeksOut = G + 1\<close>.
\<close>

theorem rejected_removal_keeps_expired_record:
  assumes "disqualifiedHolder cfg g (qualifiedIds q) u m"
    and "grantsResolve cfg g (allQualified q)"
    and "\<not> roles_remove g u"
    and "loadGrace gf u = Some e" "weeksOut e = G" "0 < G"
  shows "threw (manageRolesG G cfg ts g q gf) = False
    \<and> logFile (manageRolesG G cfg ts g q gf) \<noteq> None
    \<and> loadGrace (graceFile (manageRolesG G cfg ts g q gf)) u = Some (e\<lparr> weeksOut := G + 1 \<rparr>)
    \<and> \<not> graceInv G (loadGrace (graceFile (manageRolesG G cfg ts g q gf)))"
proof -
  have w: "weeksOut e + 1 > G" using assms(5) by simp
  from manageRolesG_decisions_rejected [OF assms(1,2,3,4) w assms(6), of ts]
  have d: "decisionsFor u (manageRolesG G cfg ts g q gf) =
             ([], [], Some (e\<lparr> weeksOut := weeksOut e + 1 \<rparr>))"
    and l: "logFile (manageRolesG G cfg ts g q gf) \<noteq> None"
    by simp_all
  from d have s: "loadGrace (graceFile (manageRolesG G cfg ts g q gf)) u =
      Some (e\<lparr> weeksOut := G + 1 \<rparr>)"
    using assms(5) by (simp add: decisionsFor_def split: option.splits)
  have n: "\<not> graceInv G (loadGrace (graceFile (manageRolesG G cfg ts g q gf)))"
  proof
    assume "graceInv G (loadGrace (graceFile (manageRolesG G cfg ts g q gf)))"
    with s have "weeksOut (e\<lparr> weeksOut := G + 1 \<rparr>) \<le> G"
      unfolding graceInv_def by blast
    then show False by simp
  qed
  have t: "threw (manageRolesG G cfg ts g q gf) = False"
    using l by (auto simp: manageRolesG_def Let_def split: option.splits attempt.splits)
  show ?thesis using t l s n by simp
qed

theorem rejected_removal_keeps_expired_record_witness:
  "disqualifiedHolder sampleConfig guildRemoveRejects (qualifiedIds sampleQualified) ''6'' danM
   \<and> grantsResolve sampleConfig guildRemoveRejects (allQualified sampleQualified)
   \<and> \<not> roles_remove guildRemoveRejects ''6''
   \<and> graceInv 2 (loadGrace (Some (danStore 2)))
   \<and> (0::int) < 2
   \<and> logFile (manageRolesG 2 sampleConfig ''t'' guildRemoveRejects sampleQualified
                 (Some (danStore 2))) \<noteq> None
   \<and> map_option weeksOut
       (loadGrace (graceFile (manageRolesG 2 sampleConfig ''t'' guildRemoveRejects sampleQualified
                                (Some (danStore 2)))) ''6'') = Some 3
   \<and> \<not> graceInv 2
         (loadGrace (graceFile (manageRolesG 2 sampleConfig ''t'' guildRemoveRejects
                                  sampleQualified (Some (danStore 2)))))"
proof -
  have r: "\<not> roles_remove guildRemoveRejects ''6''"
    by (simp add: guildRemoveRejects_def)
  have e: "loadGrace (Some (danStore 2)) ''6'' =
             Some \<lparr> g_username = ''Dan'', weeksOut = 2, firstWeekOut = ''t'' \<rparr>"
      "weeksOut \<lparr> g_username = ''Dan'', weeksOut = 2, firstWeekOut = ''t'' \<rparr> = 2"
    by (simp_all add: loadGrace_def danStore_def)
  have G: "(0::int) < 2" by simp
  from rejected_removal_keeps_expired_record
         [OF dan_disqualified(3) sample_grants_resolve(2) r e G, of "''t''"]
       dan_disqualified(3) sample_grants_resolve(2) r danStore_within
  show ?thesis by simp
qed

end
